theory Spec2Isabelle
  imports Complex_Main "HOL-Library.Log_Nat"
begin

section \<open>References and digests\<close>

text \<open>
  Strings are byte strings (the UTF-8 encoding of the JavaScript string); every literal of
  the source is ASCII.  Sequence numbers are integers.  A reference is the pair
  \<open>[number, string]\<close> of \<open>GetTxnDigestsResponse\<close>: sequence number and digest.
\<close>

type_synonym digest = string
type_synonym reference = "int \<times> digest"

subsection \<open>Array helpers of the language\<close>

text \<open>\<open>Array.prototype.indexOf\<close>: the first index holding the value, or \<open>-1\<close>.\<close>

fun indexOf_from :: "'a list \<Rightarrow> 'a \<Rightarrow> int \<Rightarrow> int" where
  "indexOf_from [] v k = -1"
| "indexOf_from (x # xs) v k = (if x = v then k else indexOf_from xs v (k + 1))"

definition indexOf :: "'a list \<Rightarrow> 'a \<Rightarrow> int" where
  "indexOf self v = indexOf_from self v 0"

text \<open>\<open>Array.prototype.filter\<close> with the three-argument callback \<open>(value, index, self)\<close>.\<close>

definition filter_indexed :: "('a \<Rightarrow> nat \<Rightarrow> 'a list \<Rightarrow> bool) \<Rightarrow> 'a list \<Rightarrow> 'a list" where
  "filter_indexed p self =
     map fst (filter (\<lambda>(v, index). p v index self) (zip self [0..<length self]))"

subsection \<open>deduplicate\<close>

text \<open>
  \<^verbatim>\<open>
  const deduplicate = (results: [number, string][] | undefined) =>
      results
          ? results
                .map((result) => result[1])
                .filter((value, index, self) => self.indexOf(value) === index)
          : [];
  \<close>
  The argument \<open>undefined\<close> is \<open>None\<close>; an array, also the empty one, is truthy.
\<close>

definition deduplicate :: "reference list option \<Rightarrow> digest list" where
  "deduplicate results =
     (case results of
        None \<Rightarrow> []
      | Some rs \<Rightarrow>
          filter_indexed (\<lambda>v index self. indexOf self v = int index) (map snd rs))"

text \<open>Position of the first occurrence of a value in a list (the length when absent).\<close>

definition first_pos :: "'a list \<Rightarrow> 'a \<Rightarrow> nat" where
  "first_pos xs v = length (takeWhile (\<lambda>x. x \<noteq> v) xs)"

text \<open>The first occurrences of a list, each with its position.\<close>

definition firsts :: "'a list \<Rightarrow> ('a \<times> nat) list" where
  "firsts ds = filter (\<lambda>(v, i). first_pos ds v = i) (zip ds [0..<length ds])"

section \<open>Numbers of the language\<close>

text \<open>
  A \<open>number\<close> is an IEEE 754 binary64 value: not-a-number, an infinity, negative zero,
  or a finite value, held as the rational it denotes (\<open>Finite 0\<close> is positive zero).
  A \<open>bigint\<close> is an \<open>int\<close>.
\<close>

datatype number = NaN | PosInfinity | NegInfinity | NegZero | Finite rat

definition pow2 :: "int \<Rightarrow> rat" where
  "pow2 e = (if 0 \<le> e then 2 ^ nat e else 1 / 2 ^ nat (- e))"

definition pow10 :: "int \<Rightarrow> rat" where
  "pow10 e = (if 0 \<le> e then 10 ^ nat e else 1 / 10 ^ nat (- e))"

text \<open>
  The exponent of a positive rational: the \<open>e\<close> with \<open>2^e \<le> x < 2^(e+1)\<close>, from the bit
  lengths of its numerator and denominator.
\<close>

definition floor_log2 :: "rat \<Rightarrow> int" where
  "floor_log2 x =
     (let (p, q) = quotient_of x; d = bitlen p - bitlen q
      in if pow2 d \<le> x then d else d - 1)"

text \<open>Rounding a rational to an integer, a tie going to the even neighbour.\<close>

definition round_half_even :: "rat \<Rightarrow> int" where
  "round_half_even q =
     (let f = \<lfloor>q\<rfloor>; r = q - of_int f
      in if r < 1 / 2 then f
         else if 1 / 2 < r then f + 1
         else if even f then f else f + 1)"

text \<open>
  The magnitude of the binary64 value nearest to a positive rational (round to nearest,
  ties to even): a multiple of the spacing of its binade, which leaves 53 significant
  bits; exponents start at \<open>-1022\<close>, below it the spacing stays \<open>2^-1074\<close>.
\<close>

definition nearest_magnitude :: "rat \<Rightarrow> rat" where
  "nearest_magnitude x =
     (let e = max (floor_log2 x) (- 1022);
          ulp = pow2 (e - 52)
      in of_int (round_half_even (x / ulp)) * ulp)"

text \<open>
  The binary64 value nearest to a rational: an infinity when the rounded magnitude reaches
  \<open>2^1024\<close>; a result of zero keeps the sign.
\<close>

definition round_binary64 :: "rat \<Rightarrow> number" where
  "round_binary64 x =
     (if x = 0 then Finite 0
      else (let y = nearest_magnitude \<bar>x\<bar>
            in if pow2 1024 \<le> y then (if 0 < x then PosInfinity else NegInfinity)
               else if y = 0 then (if 0 < x then Finite 0 else NegZero)
               else Finite (if 0 < x then y else - y)))"

subsection \<open>Arithmetic and comparison\<close>

definition is_infinite :: "number \<Rightarrow> bool" where
  "is_infinite a = (a = PosInfinity \<or> a = NegInfinity)"

definition is_zero :: "number \<Rightarrow> bool" where
  "is_zero a = (a = NegZero \<or> a = Finite 0)"

text \<open>The sign bit of a number that is not \<open>NaN\<close>, and the rational of a finite one.\<close>

fun negative :: "number \<Rightarrow> bool" where
  "negative NegInfinity = True"
| "negative NegZero = True"
| "negative (Finite x) = (x < 0)"
| "negative _ = False"

fun rational :: "number \<Rightarrow> rat" where
  "rational (Finite x) = x"
| "rational _ = 0"

definition signed_infinity :: "bool \<Rightarrow> number" where
  "signed_infinity neg = (if neg then NegInfinity else PosInfinity)"

definition signed_zero :: "bool \<Rightarrow> number" where
  "signed_zero neg = (if neg then NegZero else Finite 0)"

text \<open>\<open>a * b\<close> and \<open>a / b\<close> on numbers.\<close>

definition number_times :: "number \<Rightarrow> number \<Rightarrow> number" where
  "number_times a b =
     (if a = NaN \<or> b = NaN then NaN
      else if is_infinite a \<or> is_infinite b then
        (if is_zero a \<or> is_zero b then NaN else signed_infinity (negative a \<noteq> negative b))
      else if is_zero a \<or> is_zero b then signed_zero (negative a \<noteq> negative b)
      else round_binary64 (rational a * rational b))"

definition number_divide :: "number \<Rightarrow> number \<Rightarrow> number" where
  "number_divide a b =
     (if a = NaN \<or> b = NaN then NaN
      else if is_infinite a then
        (if is_infinite b then NaN else signed_infinity (negative a \<noteq> negative b))
      else if is_infinite b then signed_zero (negative a \<noteq> negative b)
      else if is_zero b then
        (if is_zero a then NaN else signed_infinity (negative a \<noteq> negative b))
      else if is_zero a then signed_zero (negative a \<noteq> negative b)
      else round_binary64 (rational a / rational b))"

text \<open>\<open>a < b\<close> on numbers: false when either is \<open>NaN\<close>; the two zeros are equal.\<close>

definition number_less :: "number \<Rightarrow> number \<Rightarrow> bool" where
  "number_less a b =
     (if a = NaN \<or> b = NaN then False
      else if a = PosInfinity \<or> b = NegInfinity then False
      else if a = NegInfinity \<or> b = PosInfinity then True
      else rational a < rational b)"

text \<open>
  \<open>a < b\<close> with a bigint on the left and a number on the right compares the two
  mathematical values; it is false for \<open>NaN\<close>.
\<close>

definition bigint_less_number :: "int \<Rightarrow> number \<Rightarrow> bool" where
  "bigint_less_number a b =
     (if b = NaN \<or> b = NegInfinity then False
      else if b = PosInfinity then True
      else of_int a < rational b)"

text \<open>\<open>Number(b)\<close> of a bigint, and the truthiness of a number.\<close>

definition Number_of_bigint :: "int \<Rightarrow> number" where
  "Number_of_bigint b = round_binary64 (of_int b)"

definition truthy_number :: "number \<Rightarrow> bool" where
  "truthy_number a = (a \<noteq> NaN \<and> \<not> is_zero a)"

text \<open>
  \<open>Math.round\<close>: the integer nearest to the argument, the one towards \<open>+\<infinity>\<close> of two
  equally near; \<open>-0\<close> for an argument in \<open>[-0.5, 0)\<close>.
\<close>

definition Math_round :: "number \<Rightarrow> number" where
  "Math_round a =
     (case a of
        Finite x \<Rightarrow> (let r = \<lfloor>x + 1 / 2\<rfloor>
                     in if r = 0 \<and> x < 0 then NegZero else Finite (of_int r))
      | _ \<Rightarrow> a)"

text \<open>
  \<open>BigInt(a)\<close> of a number throws a \<open>RangeError\<close> unless the number is an integer.
\<close>

datatype conversion_error = RangeError

definition BigInt :: "number \<Rightarrow> conversion_error + int" where
  "BigInt a =
     (case a of
        Finite x \<Rightarrow> if of_int \<lfloor>x\<rfloor> = x then Inr \<lfloor>x\<rfloor> else Inl RangeError
      | NegZero \<Rightarrow> Inr 0
      | _ \<Rightarrow> Inl RangeError)"

subsection \<open>parseFloat\<close>

text \<open>
  One white space or line terminator character at the head of a string, as the number of
  bytes it takes (0 for none): TAB, LF, VT, FF, CR, SP; U+00A0; U+1680; U+2000 to U+200A,
  U+2028, U+2029, U+202F; U+205F; U+3000; U+FEFF.
\<close>

definition white_space_length :: "string \<Rightarrow> nat" where
  "white_space_length s =
     (case s of
        [] \<Rightarrow> 0
      | c # cs \<Rightarrow>
          if c \<in> {CHR 0x09, CHR 0x0A, CHR 0x0B, CHR 0x0C, CHR 0x0D, CHR 0x20} then 1
          else if c = CHR 0xC2 \<and> take 1 cs = [CHR 0xA0] then 2
          else if c = CHR 0xE1 \<and> take 2 cs = [CHR 0x9A, CHR 0x80] then 3
          else if c = CHR 0xE2 \<and> take 1 cs = [CHR 0x80] \<and> length cs \<ge> 2
                  \<and> (of_char (cs ! 1) :: nat) \<in> {0x80..0x8A} \<union> {0xA8, 0xA9, 0xAF} then 3
          else if c = CHR 0xE2 \<and> take 2 cs = [CHR 0x81, CHR 0x9F] then 3
          else if c = CHR 0xE3 \<and> take 2 cs = [CHR 0x80, CHR 0x80] then 3
          else if c = CHR 0xEF \<and> take 2 cs = [CHR 0xBB, CHR 0xBF] then 3
          else 0)"

function skip_white_space :: "string \<Rightarrow> string" where
  "skip_white_space s =
     (if white_space_length s = 0 then s else skip_white_space (drop (white_space_length s) s))"
  by pat_completeness auto
termination
proof (relation "measure length")
  show "wf (measure length)" by simp
next
  fix s :: string
  assume "white_space_length s \<noteq> 0"
  moreover have "white_space_length [] = 0"
    by (simp add: white_space_length_def)
  ultimately have "s \<noteq> []" and "0 < white_space_length s"
    by auto
  then show "(drop (white_space_length s) s, s) \<in> measure length"
    by simp
qed

declare skip_white_space.simps [simp del]

definition is_digit :: "char \<Rightarrow> bool" where
  "is_digit c = ((of_char c :: nat) \<in> {48..57})"

definition digits_value :: "string \<Rightarrow> nat" where
  "digits_value ds = foldl (\<lambda>acc c. 10 * acc + (of_char c - 48)) 0 ds"

text \<open>
  The exponent part at the head of a string: \<open>e\<close> or \<open>E\<close>, an optional sign and at least
  one digit; its value, or 0 when there is no exponent part.
\<close>

definition exponent_part :: "string \<Rightarrow> int" where
  "exponent_part s =
     (case s of
        [] \<Rightarrow> 0
      | c # cs \<Rightarrow>
          if c = CHR ''e'' \<or> c = CHR ''E'' then
            (let (neg, ds) = (case cs of
                                [] \<Rightarrow> (False, [])
                              | d # rest \<Rightarrow> if d = CHR ''-'' then (True, rest)
                                           else if d = CHR ''+'' then (False, rest)
                                           else (False, cs));
                 digits = takeWhile is_digit ds
             in if digits = [] then 0
                else if neg then - int (digits_value digits) else int (digits_value digits))
          else 0)"

definition negate :: "number \<Rightarrow> number" where
  "negate a =
     (case a of
        NaN \<Rightarrow> NaN
      | PosInfinity \<Rightarrow> NegInfinity
      | NegInfinity \<Rightarrow> PosInfinity
      | NegZero \<Rightarrow> Finite 0
      | Finite x \<Rightarrow> if x = 0 then NegZero else Finite (- x))"

text \<open>
  The number of the longest prefix of a string that is a \<open>StrUnsignedDecimalLiteral\<close>:
  \<open>Infinity\<close>, or digits with an optional fraction and exponent, or a fraction that starts
  with the point; it is the number nearest to the decimal value of the prefix, and \<open>NaN\<close>
  when there is no such prefix.
\<close>

definition unsigned_literal_value :: "string \<Rightarrow> number" where
  "unsigned_literal_value u =
     (if take 8 u = ''Infinity'' then PosInfinity
      else (let intDigits = takeWhile is_digit u;
                afterInt = dropWhile is_digit u;
                (fracDigits, afterFrac) =
                   (case afterInt of
                      [] \<Rightarrow> ([], [])
                    | c # cs \<Rightarrow> if c = CHR ''.''
                                then (takeWhile is_digit cs, dropWhile is_digit cs)
                                else ([], afterInt))
            in if intDigits = [] \<and> fracDigits = [] then NaN
               else round_binary64
                      (of_nat (digits_value (intDigits @ fracDigits))
                       * pow10 (exponent_part afterFrac - int (length fracDigits)))))"

text \<open>
  \<open>parseFloat\<close>: leading white space is dropped, a sign is read, and the rest is valued
  as above.
\<close>

definition parseFloat :: "string \<Rightarrow> number" where
  "parseFloat inputString =
     (let trimmed = skip_white_space inputString
      in case trimmed of
           [] \<Rightarrow> unsigned_literal_value []
         | c # cs \<Rightarrow>
             if c = CHR ''-'' then negate (unsigned_literal_value cs)
             else if c = CHR ''+'' then unsigned_literal_value cs
             else unsigned_literal_value trimmed)"

section \<open>Coin type strings\<close>

text \<open>
  \<open>String.prototype.lastIndexOf\<close> of a one-character pattern and
  \<open>String.prototype.substring\<close> with a start only (a negative start counts as 0, one
  beyond the end as the length).  The character searched for is ASCII, so positions in the
  byte string cut it where the positions in the JavaScript string do.
\<close>

fun lastIndexOf_from :: "string \<Rightarrow> char \<Rightarrow> int \<Rightarrow> int \<Rightarrow> int" where
  "lastIndexOf_from [] c k found = found"
| "lastIndexOf_from (x # xs) c k found =
     lastIndexOf_from xs c (k + 1) (if x = c then k else found)"

definition lastIndexOf :: "string \<Rightarrow> char \<Rightarrow> int" where
  "lastIndexOf s c = lastIndexOf_from s c 0 (-1)"

definition substring :: "string \<Rightarrow> int \<Rightarrow> string" where
  "substring s start = drop (nat (max 0 start)) s"

text \<open>
  The objects \<open>Coin\<close> reads a type from: a \<open>GetObjectDataResponse\<close> (it has a
  \<open>status\<close> key; its type is what \<open>getMoveObjectType\<close> returns) or an object
  with a \<open>type\<close> field.
\<close>

datatype ObjectData =
    GetObjectDataResponse (moveObjectType: "string option")
  | MoveObject (type_field: "string option")

text \<open>
  \<^verbatim>\<open>
  private static getType(data: ObjectData): string | undefined {
    if ('status' in data) { return getMoveObjectType(data); }
    return data.type;
  }
  \<close>
\<close>

fun getType :: "ObjectData \<Rightarrow> string option" where
  "getType (GetObjectDataResponse t) = t"
| "getType (MoveObject t) = t"

definition COIN_PACKAGE_ID :: string where "COIN_PACKAGE_ID = ''0x2''"
definition COIN_MODULE_NAME :: string where "COIN_MODULE_NAME = ''coin''"
definition COIN_TYPE :: string where
  "COIN_TYPE = COIN_PACKAGE_ID @ ''::'' @ COIN_MODULE_NAME @ ''::Coin''"

text \<open>
  A line terminator of the regular expression grammar, which \<open>.\<close> does not match: LF, CR,
  and U+2028, U+2029 (in UTF-8 the bytes E2 80 A8 and E2 80 A9).
\<close>

fun has_line_terminator :: "string \<Rightarrow> bool" where
  "has_line_terminator [] = False"
| "has_line_terminator (c # cs) =
     (c = CHR 0x0A \<or> c = CHR 0x0D
      \<or> (c = CHR 0xE2 \<and> (take 2 cs = [CHR 0x80, CHR 0xA8] \<or> take 2 cs = [CHR 0x80, CHR 0xA9]))
      \<or> has_line_terminator cs)"

text \<open>
  \<open>COIN_TYPE_ARG_REGEX = /^0x2::coin::Coin<(.+)>$/\<close>: the whole string is the prefix, a
  non-empty group without line terminators, and a closing \<open>>\<close> as last character.
  The result is the group, or \<open>None\<close> for no match.
\<close>

definition COIN_TYPE_ARG_REGEX_match :: "string \<Rightarrow> string option" where
  "COIN_TYPE_ARG_REGEX_match s =
     (let p = ''0x2::coin::Coin<'' in
      if take (length p) s = p \<and> length s > length p \<and> last s = CHR ''>''
      then (let g = butlast (drop (length p) s)
            in if g \<noteq> [] \<and> \<not> has_line_terminator g then Some g else None)
      else None)"

text \<open>
  \<^verbatim>\<open>
  static getCoinTypeArg(obj: ObjectData) {
    const res = Coin.getType(obj)?.match(COIN_TYPE_ARG_REGEX);
    return res ? res[1] : null;
  }
  static getCoinSymbol(coinTypeArg: string) {
    return coinTypeArg.substring(coinTypeArg.lastIndexOf(':') + 1);
  }
  \<close>
\<close>

definition getCoinTypeArg :: "ObjectData \<Rightarrow> string option" where
  "getCoinTypeArg obj =
     (case getType obj of None \<Rightarrow> None | Some t \<Rightarrow> COIN_TYPE_ARG_REGEX_match t)"

definition getCoinSymbol :: "string \<Rightarrow> string" where
  "getCoinSymbol coinTypeArg = substring coinTypeArg (lastIndexOf coinTypeArg CHR '':'' + 1)"

section \<open>Coin amounts\<close>

text \<open>
  What a property of the table can hold: a number of its own, or a member that every
  plain object inherits from \<open>Object.prototype\<close> (a function, and for \<open>__proto__\<close> the
  prototype object itself).  An inherited member is truthy; as a number it is \<open>NaN\<close>
  (its string form is not numeric), and a bigint compared with it is not less.
\<close>

datatype property_value = NumberValue number | InheritedMember

definition Object_prototype_names :: "string list" where
  "Object_prototype_names =
     [''constructor'', ''__defineGetter__'', ''__defineSetter__'', ''hasOwnProperty'',
      ''__lookupGetter__'', ''__lookupSetter__'', ''isPrototypeOf'', ''propertyIsEnumerable'',
      ''toString'', ''valueOf'', ''__proto__'', ''toLocaleString'']"

fun truthy_value :: "property_value \<Rightarrow> bool" where
  "truthy_value (NumberValue a) = truthy_number a"
| "truthy_value InheritedMember = True"

fun ToNumber :: "property_value \<Rightarrow> number" where
  "ToNumber (NumberValue a) = a"
| "ToNumber InheritedMember = NaN"

fun bigint_less_value :: "int \<Rightarrow> property_value \<Rightarrow> bool" where
  "bigint_less_value a (NumberValue b) = bigint_less_number a b"
| "bigint_less_value a InheritedMember = False"

text \<open>
  \<^verbatim>\<open>
  export const COIN_DENOMINATIONS: Record<string, number> = {
    '0x2::sui::SUI': 1e9,
  } as const;
  \<close>
  The table is a plain object: reading a property finds the own key first and then the
  members of \<open>Object.prototype\<close>; any other name is \<open>undefined\<close>, here \<open>None\<close>.
\<close>

definition COIN_DENOMINATIONS :: "string \<rightharpoonup> property_value" where
  "COIN_DENOMINATIONS key =
     (case map_of [(''0x2::sui::SUI'', NumberValue (Finite (10 ^ 9)))] key of
        Some v \<Rightarrow> Some v
      | None \<Rightarrow> if key \<in> set Object_prototype_names then Some InheritedMember else None)"

datatype mode = accurate | loose

datatype notation_name = standard | compact

text \<open>
  \<open>NumberFormatOptions\<close> and the result of \<open>getFormatData\<close>.  The keys \<open>notation\<close> and
  \<open>value\<close> are keywords here and carry a prime.
\<close>

record NumberFormatOptions =
  notation' :: "notation_name option"
  minimumFractionDigits :: "nat option"
  maximumFractionDigits :: "nat option"

record FormatData =
  value' :: number
  symbol :: string
  formatOptions :: NumberFormatOptions
  forcedFormatValue :: "string option"

text \<open>\<open>COIN_DENOMINATIONS[coinArgType] || 1\<close>\<close>

definition denomination_of :: "string \<Rightarrow> property_value" where
  "denomination_of coinArgType =
     (case COIN_DENOMINATIONS coinArgType of
        None \<Rightarrow> NumberValue (Finite 1)
      | Some d \<Rightarrow> if truthy_value d then d else NumberValue (Finite 1))"

text \<open>The literal \<open>1e-8\<close>: the number nearest to it.\<close>

definition literal_1e_8 :: number where
  "literal_1e_8 = round_binary64 (1 / 10 ^ 8)"

text \<open>
  \<^verbatim>\<open>
  static getFormatData(balance: bigint, coinArgType: string, mode: 'accurate' | 'loose') {
      const denomination = COIN_DENOMINATIONS[coinArgType] || 1;
      const adjValue = Number(balance) / denomination;
      const formatOptions: NumberFormatOptions = {};
      if (mode === 'accurate') {
        formatOptions.maximumFractionDigits = 20;
      }
      if (mode === 'loose') {
        if (balance < denomination) {
          formatOptions.maximumFractionDigits = 8;
        } else {
          formatOptions.maximumFractionDigits = 3;
          formatOptions.notation = 'compact';
        }
      }
    return {
      value: adjValue,
      symbol: Coin.getCoinSymbol(coinArgType),
      formatOptions,
      forcedFormatValue: mode === 'loose' && adjValue < 1e-8 ? '- -' : undefined,
    };
  }
  \<close>
\<close>

definition getFormatData :: "int \<Rightarrow> string \<Rightarrow> mode \<Rightarrow> FormatData" where
  "getFormatData bal coinArgType m =
     (let denomination = denomination_of coinArgType;
          adjValue = number_divide (Number_of_bigint bal) (ToNumber denomination);
          formatOptions0 = \<lparr>notation' = None, minimumFractionDigits = None,
                            maximumFractionDigits = None\<rparr>;
          formatOptions1 = (if m = accurate
                            then formatOptions0\<lparr>maximumFractionDigits := Some 20\<rparr>
                            else formatOptions0);
          formatOptions2 = (if m = loose
                            then (if bigint_less_value bal denomination
                                  then formatOptions1\<lparr>maximumFractionDigits := Some 8\<rparr>
                                  else formatOptions1\<lparr>maximumFractionDigits := Some 3,
                                                       notation' := Some compact\<rparr>)
                            else formatOptions1)
      in \<lparr>value' = adjValue,
          symbol = getCoinSymbol coinArgType,
          formatOptions = formatOptions2,
          forcedFormatValue = (if m = loose \<and> number_less adjValue literal_1e_8
                               then Some ''- -'' else None)\<rparr>)"

text \<open>
  \<^verbatim>\<open>
  static fromInput(inputValue: string, denomination: number): bigint {
    const value = parseFloat(inputValue);
    return BigInt(Math.round(value * denomination));
  }
  \<close>
\<close>

definition fromInput :: "string \<Rightarrow> number \<Rightarrow> conversion_error + int" where
  "fromInput inputValue denomination =
     (let v = parseFloat inputValue
      in BigInt (Math_round (number_times v denomination)))"

text \<open>
  The placeholder as the specification writes it: two en dashes (U+2013, in UTF-8 the
  bytes E2 80 93) around a space.
\<close>

definition en_dash_placeholder :: string where
  "en_dash_placeholder =
     [CHR 0xE2, CHR 0x80, CHR 0x93, CHR '' '', CHR 0xE2, CHR 0x80, CHR 0x93]"

text \<open>
  The rounding the specification words for \<open>parseUserInput\<close>: to the nearest integer, a
  tie going away from zero.
\<close>

definition round_half_away_from_zero :: "rat \<Rightarrow> int" where
  "round_half_away_from_zero x = (if 0 \<le> x then \<lfloor>x + 1 / 2\<rfloor> else - \<lfloor>- x + 1 / 2\<rfloor>)"

text \<open>
  A string that parses as a decimal number: after leading white space and an optional
  sign it starts with \<open>Infinity\<close>, with a digit, or with a point and a digit.
\<close>

definition unsigned_part :: "string \<Rightarrow> string" where
  "unsigned_part s =
     (case skip_white_space s of
        [] \<Rightarrow> []
      | c # cs \<Rightarrow> if c = CHR ''-'' \<or> c = CHR ''+'' then cs else c # cs)"

definition parses_as_decimal :: "string \<Rightarrow> bool" where
  "parses_as_decimal s =
     (let u = unsigned_part s
      in take 8 u = ''Infinity''
         \<or> (\<exists>c cs. u = c # cs \<and> is_digit c)
         \<or> (\<exists>c cs. u = CHR ''.'' # c # cs \<and> is_digit c))"

section \<open>Transaction results slice: entries and state\<close>

text \<open>
  \<open>TxResultState\<close>, the entry of the list.  An optional field is an \<open>option\<close>;
  \<open>objectId\<close> is declared a string and built only under a condition, so it is one too.
  Field names that are keywords or clash with another record carry a prime:
  \<open>from'\<close>, \<open>error'\<close>.
\<close>

datatype ExecutionStatusType = success | failure

record TxResultState =
  to :: "string option"
  seq :: int
  txId :: string
  status :: ExecutionStatusType
  txGas :: int
  kind :: "string option"
  from' :: string
  amount :: "int option"
  timestampMs :: "int option"
  url :: "string option"
  objectId :: "string option"
  description :: "string option"
  name :: "string option"
  isSender :: "bool option"
  error' :: "string option"
  balance :: "int option"
  callFunctionName :: "string option"
  coinSymbol :: "string option"

text \<open>The error descriptor \<open>{ code?, message?, name? }\<close> of the state.\<close>

record ErrorInfo =
  code :: "string option"
  message :: "string option"
  name' :: "string option"

text \<open>\<open>TransactionManualState\<close>; the value \<open>false\<close> of \<open>error\<close> is \<open>None\<close>.\<close>

record TransactionManualState =
  loading :: bool
  error :: "ErrorInfo option"
  latestTx :: "TxResultState list"
  recentAddresses :: "string list"

definition initialState :: TransactionManualState where
  "initialState = \<lparr>loading = True, error = None, latestTx = [], recentAddresses = []\<rparr>"

text \<open>
  \<open>[...new Set(xs)]\<close>: the values in the order of their first insertion.
\<close>

definition Set_add :: "'a list \<Rightarrow> 'a \<Rightarrow> 'a list" where
  "Set_add acc x = (if x \<in> set acc then acc else acc @ [x])"

definition Set_spread :: "'a list \<Rightarrow> 'a list" where
  "Set_spread xs = foldl Set_add [] xs"

text \<open>\<open>.filter((itm) => itm)\<close> on strings that may be undefined: the non-empty ones.\<close>

definition truthy_strings :: "string option list \<Rightarrow> string list" where
  "truthy_strings xs = List.map_filter (\<lambda>itm. case itm of None \<Rightarrow> None
                                          | Some s \<Rightarrow> if s = [] then None else Some s) xs"

text \<open>
  The three cases of \<open>txSlice.extraReducers\<close>, as actions and one reducer.
  \<^verbatim>\<open>
  .addCase(getTransactionsByAddress.fulfilled, (state, action) => {
      state.loading = false;
      state.error = false;
      state.latestTx = action.payload;
      const recentAddresses = action.payload.map((tx) => [tx?.to as string, tx.from as string]);
      state.recentAddresses = [...new Set(recentAddresses.flat().filter((itm) => itm))];
  })
  .addCase(getTransactionsByAddress.pending, (state, action) => {
      state.loading = true;
      state.latestTx = [];
      state.recentAddresses = [];
  })
  .addCase(getTransactionsByAddress.rejected, (state, { error: { code, name, message } }) => {
      state.loading = false;
      state.error = { code, message, name };
      state.latestTx = [];
      state.recentAddresses = [];
  })
  \<close>
\<close>

datatype action = fulfilled "TxResultState list" | pending | rejected ErrorInfo

fun txSlice_reducer :: "TransactionManualState \<Rightarrow> action \<Rightarrow> TransactionManualState" where
  "txSlice_reducer state (fulfilled payload) =
     state\<lparr>loading := False,
           error := None,
           latestTx := payload,
           recentAddresses :=
             Set_spread (truthy_strings (concat (map (\<lambda>tx. [to tx, Some (from' tx)]) payload)))\<rparr>"
| "txSlice_reducer state pending =
     state\<lparr>loading := True, latestTx := [], recentAddresses := []\<rparr>"
| "txSlice_reducer state (rejected e) =
     state\<lparr>loading := False,
           error := Some \<lparr>code = code e, message = message e, name' = name' e\<rparr>,
           latestTx := [],
           recentAddresses := []\<rparr>"

text \<open>The state after a sequence of actions, from the initial state.\<close>

definition observe :: "action list \<Rightarrow> TransactionManualState" where
  "observe acts = foldl txSlice_reducer initialState acts"

text \<open>
  The three phases of the state as the specification words them, and the property that
  exactly one holds.
\<close>

definition phase_loading :: "TransactionManualState \<Rightarrow> bool" where
  "phase_loading s = loading s"

definition phase_loaded :: "TransactionManualState \<Rightarrow> bool" where
  "phase_loaded s = (latestTx s \<noteq> [] \<and> error s = None)"

definition phase_failed :: "TransactionManualState \<Rightarrow> bool" where
  "phase_failed s = (error s \<noteq> None)"

definition exactly_one_phase :: "TransactionManualState \<Rightarrow> bool" where
  "exactly_one_phase s =
     (length (filter id [phase_loading s, phase_loaded s, phase_failed s]) = 1)"

section \<open>The thunk getTransactionsByAddress\<close>

subsection \<open>What the node returns\<close>

text \<open>
  The accessors of \<open>@mysten/sui.js\<close> that the thunk calls are not among the sources.  A
  transaction and an effects response are therefore records of what each accessor returns
  on them, with no relation assumed between the fields:
  \<open>getTransactionKindName\<close>, \<open>getTransferSuiTransaction\<close>,
  \<open>getTransferObjectTransaction\<close>, \<open>getMoveCallTransaction\<close> on a transaction;
  \<open>getTransactionDigest\<close>, \<open>getTransactions\<close>, \<open>getExecutionStatusType\<close>,
  \<open>getTotalGasUsed\<close>, \<open>getExecutionStatusError\<close> on a response, next to its fields
  \<open>certificate.data.sender\<close>, \<open>timestamp_ms\<close> and \<open>effects.created\<close> (the object ids
  of the references created).
\<close>

datatype SuiTransferSui = SuiTransferSui (transferSui_recipient: string) (transferSui_amount: "int option")

datatype TransferObject = TransferObject (transferObject_recipient: string) (objectRef_objectId: string)

datatype MoveCall = MoveCall (function': "string option")

record SuiTransaction =
  kindName :: string
  transferSui :: "SuiTransferSui option"
  transferObject :: "TransferObject option"
  moveCall :: "MoveCall option"

record TransactionEffectsResponse =
  transactionDigest :: digest
  transactions :: "SuiTransaction list"
  sender :: string
  executionStatusType :: ExecutionStatusType
  totalGasUsed :: int
  executionStatusError :: "string option"
  timestamp_ms :: "int option"
  created :: "string list option"

text \<open>
  An object of the batch that \<open>batchFetchObject\<close> resolves to, as far as the thunk reads
  it.  As the SDK declares a \<open>SuiObject\<close>, it has a \<open>reference\<close> with its \<open>objectId\<close>
  and \<open>data\<close>; of the data the thunk reads \<open>type\<close> and \<open>fields\<close>.  The data of a
  Move object has both; the data of a package has neither, so each of the two may be
  absent.  Of \<open>fields\<close> the thunk reads four members, each of which may be absent.
\<close>

record ObjectFields =
  fields_description :: "string option"
  fields_name :: "string option"
  fields_url :: "string option"
  fields_balance :: "int option"

record SuiData =
  data_type :: "string option"
  data_fields :: "ObjectFields option"

record SuiObject =
  reference_objectId :: string
  data :: SuiData

text \<open>
  What makes the thunk reject: a \<open>TypeError\<close> raised in its own code, or the rejection of
  one of the two requests to the node, with the error the request carries.  The thunk's
  code raises at three places: destructuring \<open>undefined\<close> when no reference has the digest
  of a response, reading the first transaction of a response that has none, and reading
  a member of \<open>data.fields\<close> on an object that has no \<open>fields\<close>.
\<close>

datatype throw_site = no_reference | no_transaction | no_fields

datatype thunk_error = TypeError throw_site | RequestFailed ErrorInfo

text \<open>
  What the thunk is run with.  The two requests of \<open>api.instance.fullNode\<close>, each a list
  or a failure (a \<open>null\<close> element of the first answer is \<open>None\<close>), and the payload of the
  dispatched \<open>batchFetchObject\<close> (\<open>None\<close> when the payload is not an array).  The class
  \<open>Coin\<close> that the thunk imports is the wallet's, \<open>_redux/slices/sui-objects/Coin\<close>, whose
  source is not among the files: its two static methods that the merge calls are taken as
  they are given, \<open>getCoinTypeArg\<close> on the data of an object (a string or \<open>null\<close>) and
  \<open>getCoinSymbol\<close> on a string.  The text of the message of a \<open>TypeError\<close> is the
  engine's.
\<close>

record collaborators =
  getTransactionsForAddress :: "string \<Rightarrow> thunk_error + reference option list"
  getTransactionWithEffectsBatch :: "digest list \<Rightarrow> thunk_error + TransactionEffectsResponse list"
  batchFetchObject :: "string list \<Rightarrow> SuiObject list option"
  Coin_getCoinTypeArg :: "SuiData \<Rightarrow> string option"
  Coin_getCoinSymbol :: "string \<Rightarrow> string"
  TypeError_message :: "throw_site \<Rightarrow> string"

subsection \<open>Helpers\<close>

text \<open>
  \<^verbatim>\<open>
  const getCreatedObjectID = (txEffects: TransactionEffects): string | null => {
      return txEffects?.created
          ? txEffects?.created.map((item) => item.reference)[0]?.objectId
          : null;
  };
  \<close>
\<close>

definition getCreatedObjectID :: "TransactionEffectsResponse \<Rightarrow> string option" where
  "getCreatedObjectID txEff =
     (case created txEff of
        None \<Rightarrow> None
      | Some items \<Rightarrow> (case items of [] \<Rightarrow> None | objectId0 # _ \<Rightarrow> Some objectId0))"

text \<open>\<open>.filter(notEmpty)\<close> and \<open>.filter((tx) => tx)\<close> on arrays of objects: the elements present.\<close>

definition notEmpty_filter :: "'a option list \<Rightarrow> 'a list" where
  "notEmpty_filter xs = List.map_filter (\<lambda>x. x) xs"

text \<open>A callback that may throw, mapped over an array: the first throw ends the map.\<close>

fun map_throwing :: "('a \<Rightarrow> 'e + 'b) \<Rightarrow> 'a list \<Rightarrow> 'e + 'b list" where
  "map_throwing f [] = Inr []"
| "map_throwing f (x # xs) =
     (case f x of
        Inl e \<Rightarrow> Inl e
      | Inr y \<Rightarrow> (case map_throwing f xs of Inl e \<Rightarrow> Inl e | Inr ys \<Rightarrow> Inr (y # ys)))"

text \<open>
  \<open>Array.prototype.sort\<close> with a comparator, as a stable insertion sort: an element goes
  before the first one that the comparator does not put before it.
\<close>

fun sort_insert :: "('a \<Rightarrow> 'a \<Rightarrow> int) \<Rightarrow> 'a \<Rightarrow> 'a list \<Rightarrow> 'a list" where
  "sort_insert cmp x [] = [x]"
| "sort_insert cmp x (y # ys) =
     (if cmp x y \<le> 0 then x # y # ys else y # sort_insert cmp x ys)"

definition Array_sort :: "('a \<Rightarrow> 'a \<Rightarrow> int) \<Rightarrow> 'a list \<Rightarrow> 'a list" where
  "Array_sort cmp xs = foldr (sort_insert cmp) xs []"

text \<open>\<open>.replace(/_/g, ' ')\<close>\<close>

definition replace_underscores :: "string \<Rightarrow> string" where
  "replace_underscores s = map (\<lambda>c. if c = CHR ''_'' then CHR '' '' else c) s"

subsection \<open>Classifying one effects response\<close>

text \<open>
  The callback of \<open>txEffs.map\<close>.  Destructuring the first reference with the digest of the
  response raises a \<open>TypeError\<close> when there is none; more than one transaction gives
  \<open>null\<close>; the accessors dereference \<open>txns[0]\<close>, so an empty list raises as well.
  \<^verbatim>\<open>
  const [seq, digest] = transactions.filter(
      (transactionId) => transactionId[1] === getTransactionDigest(txEff.certificate))[0];
  const res: CertifiedTransaction = txEff.certificate;
  const txns = getTransactions(res);
  if (txns.length > 1) { return null; }
  const txn = txns[0];
  const txKind = getTransactionKindName(txn);
  const transferSui = getTransferSuiTransaction(txn);
  const txTransferObject = getTransferObjectTransaction(txn);
  const recipient = transferSui?.recipient ?? txTransferObject?.recipient;
  const moveCallTxn = getMoveCallTransaction(txn);
  const callObjectId = getCreatedObjectID(txEff.effects);
  return {
      seq, txId: digest,
      status: getExecutionStatusType(txEff),
      txGas: getTotalGasUsed(txEff),
      kind: txKind,
      callFunctionName: `Call (${moveCallTxn?.function?.replace(/_/g, ' ')})`,
      from: res.data.sender,
      ...(txTransferObject || callObjectId
          ? { objectId: txTransferObject?.objectRef.objectId ?? callObjectId } : {}),
      error: getExecutionStatusError(txEff),
      timestampMs: txEff.timestamp_ms,
      isSender: res.data.sender === address,
      ...(transferSui?.amount ? { amount: transferSui.amount } : {}),
      ...(recipient ? { to: recipient } : {}),
  };
  \<close>
\<close>

definition build_entry ::
  "string \<Rightarrow> int \<Rightarrow> digest \<Rightarrow> TransactionEffectsResponse \<Rightarrow> SuiTransaction \<Rightarrow> TxResultState" where
  "build_entry address seq0 digest0 txEff txn =
     (let txTransferObject = transferObject txn;
          recipient = (case transferSui txn of
                         Some t \<Rightarrow> Some (transferSui_recipient t)
                       | None \<Rightarrow> map_option transferObject_recipient txTransferObject);
          callObjectId = getCreatedObjectID txEff
      in \<lparr>to = (case recipient of
                  None \<Rightarrow> None
                | Some r \<Rightarrow> if r = [] then None else Some r),
          seq = seq0,
          txId = digest0,
          status = executionStatusType txEff,
          txGas = totalGasUsed txEff,
          kind = Some (kindName txn),
          from' = sender txEff,
          amount = (case transferSui txn of
                      None \<Rightarrow> None
                    | Some t \<Rightarrow> (case transferSui_amount t of
                                  None \<Rightarrow> None
                                | Some a \<Rightarrow> if a = 0 then None else Some a)),
          timestampMs = timestamp_ms txEff,
          url = None,
          objectId = (case txTransferObject of
                        Some t \<Rightarrow> Some (objectRef_objectId t)
                      | None \<Rightarrow> (case callObjectId of
                                   None \<Rightarrow> None
                                 | Some c \<Rightarrow> if c = [] then None else Some c)),
          description = None,
          name = None,
          isSender = Some (sender txEff = address),
          error' = executionStatusError txEff,
          balance = None,
          callFunctionName =
            Some (''Call ('' @
                  (case moveCall txn of
                     None \<Rightarrow> ''undefined''
                   | Some m \<Rightarrow> (case function' m of
                                 None \<Rightarrow> ''undefined''
                               | Some f \<Rightarrow> replace_underscores f)) @ '')''),
          coinSymbol = None\<rparr>)"

definition classify ::
  "string \<Rightarrow> reference list \<Rightarrow> TransactionEffectsResponse \<Rightarrow> thunk_error + TxResultState option" where
  "classify address refs txEff =
     (case filter (\<lambda>transactionId. snd transactionId = transactionDigest txEff) refs of
        [] \<Rightarrow> Inl (TypeError no_reference)
      | (seq0, digest0) # _ \<Rightarrow>
          (let txns = transactions txEff
           in if length txns > 1 then Inr None
              else (case txns of
                      [] \<Rightarrow> Inl (TypeError no_transaction)
                    | txn # _ \<Rightarrow> Inr (Some (build_entry address seq0 digest0 txEff txn)))))"

subsection \<open>Merging the fetched objects\<close>

text \<open>
  The callback of \<open>resp.map\<close>.  An absent or empty \<open>objectId\<close> is falsy and looks nothing up.
  The type of the object found is read through \<open>?.\<close>; its \<open>data.fields\<close> is read
  without, so an object that is found and has no \<open>fields\<close> raises a \<open>TypeError\<close>.
  \<^verbatim>\<open>
  const objectTxObj =
      txObjects && itm?.objectId && Array.isArray(txObjects)
          ? txObjects.find((obj) => obj.reference.objectId === itm.objectId)
          : null;
  const coinType = objectTxObj?.data?.type && Coin.getCoinTypeArg(objectTxObj.data);
  return {
      ...itm,
      ...(objectTxObj
          ? { description: objectTxObj.data.fields.description,
              name: objectTxObj.data.fields.name,
              url: objectTxObj.data.fields.url,
              balance: objectTxObj.data.fields.balance,
              coinSymbol: coinType && Coin.getCoinSymbol(coinType) }
          : {}),
  };
  \<close>
\<close>

definition find_object :: "SuiObject list option \<Rightarrow> TxResultState \<Rightarrow> SuiObject option" where
  "find_object txObjects itm =
     (case txObjects of
        None \<Rightarrow> None
      | Some objs \<Rightarrow>
          (case objectId itm of
             None \<Rightarrow> None
           | Some oid \<Rightarrow>
               if oid = [] then None
               else find (\<lambda>obj. reference_objectId obj = oid) objs))"

text \<open>
  \<open>objectTxObj?.data?.type && Coin.getCoinTypeArg(objectTxObj.data)\<close>: an absent or empty
  \<open>type\<close> is the value; a truthy one gives what \<open>getCoinTypeArg\<close> returns.
\<close>

definition coinType_of :: "collaborators \<Rightarrow> SuiObject \<Rightarrow> string option" where
  "coinType_of extra objectTxObj =
     (case data_type (data objectTxObj) of
        None \<Rightarrow> None
      | Some ty \<Rightarrow> if ty = [] then Some [] else Coin_getCoinTypeArg extra (data objectTxObj))"

text \<open>\<open>coinType && Coin.getCoinSymbol(coinType)\<close>\<close>

definition coinSymbol_of :: "collaborators \<Rightarrow> SuiObject \<Rightarrow> string option" where
  "coinSymbol_of extra objectTxObj =
     (case coinType_of extra objectTxObj of
        None \<Rightarrow> None
      | Some coinType \<Rightarrow>
          if coinType = [] then Some [] else Some (Coin_getCoinSymbol extra coinType))"

definition enrich ::
  "collaborators \<Rightarrow> SuiObject list option \<Rightarrow> TxResultState \<Rightarrow> thunk_error + TxResultState" where
  "enrich extra txObjects itm =
     (case find_object txObjects itm of
        None \<Rightarrow> Inr itm
      | Some objectTxObj \<Rightarrow>
          (case data_fields (data objectTxObj) of
             None \<Rightarrow> Inl (TypeError no_fields)
           | Some fields' \<Rightarrow>
               Inr (itm\<lparr>description := fields_description fields',
                        name := fields_name fields',
                        url := fields_url fields',
                        balance := fields_balance fields',
                        coinSymbol := coinSymbol_of extra objectTxObj\<rparr>)))"

subsection \<open>The thunk\<close>

text \<open>
  The three stages of the thunk up to the sort, and the merge; \<open>address\<close> is
  \<open>getState().account.address\<close>, \<open>None\<close> for \<open>null\<close>.
  \<^verbatim>\<open>
  if (!address) { return []; }
  const transactions = (await api.instance.fullNode.getTransactionsForAddress(address))
      .filter((tx) => tx);
  if (!transactions || !transactions.length) { return []; }
  const resp = await api.instance.fullNode
      .getTransactionWithEffectsBatch(deduplicate(transactions))
      .then(async (txEffs) => {
          return txEffs.map(...).filter(notEmpty).sort((a, b) => b.seq - a.seq);
      });
  const objectIDs = [...new Set(resp.map((itm) => itm.objectId).filter(notEmpty))];
  const getObjectBatch = await dispatch(batchFetchObject(objectIDs));
  const txObjects = getObjectBatch.payload;
  const txnResp = resp.map(...);
  return txnResp as TxResultByAddress;
  \<close>
\<close>

definition reconcile ::
  "string \<Rightarrow> reference list \<Rightarrow> TransactionEffectsResponse list \<Rightarrow> thunk_error + TxResultState list" where
  "reconcile address refs txEffs =
     (case map_throwing (classify address refs) txEffs of
        Inl e \<Rightarrow> Inl e
      | Inr results \<Rightarrow> Inr (Array_sort (\<lambda>a b. seq b - seq a) (notEmpty_filter results)))"

definition fetched_objects :: "collaborators \<Rightarrow> TxResultState list \<Rightarrow> SuiObject list option" where
  "fetched_objects extra resp =
     (let objectIDs = Set_spread (notEmpty_filter (map objectId resp))
      in batchFetchObject extra objectIDs)"

definition enrich_all :: "collaborators \<Rightarrow> TxResultState list \<Rightarrow> thunk_error + TxResultState list" where
  "enrich_all extra resp =
     (let txObjects = fetched_objects extra resp
      in map_throwing (enrich extra txObjects) resp)"

definition getTransactionsByAddress :: "collaborators \<Rightarrow> string option \<Rightarrow> thunk_error + TxResultState list" where
  "getTransactionsByAddress extra address =
     (case address of
        None \<Rightarrow> Inr []
      | Some a \<Rightarrow>
          if a = [] then Inr []
          else (case getTransactionsForAddress extra a of
                  Inl e \<Rightarrow> Inl e
                | Inr answer \<Rightarrow>
                    (let refs = notEmpty_filter answer
                     in if refs = [] then Inr []
                        else (case getTransactionWithEffectsBatch extra (deduplicate (Some refs)) of
                                Inl e \<Rightarrow> Inl e
                              | Inr txEffs \<Rightarrow>
                                  (case reconcile a refs txEffs of
                                     Inl e \<Rightarrow> Inl e
                                   | Inr resp \<Rightarrow> enrich_all extra resp)))))"

text \<open>
  One cycle on the state: the pending action, then the fulfilled or the rejected one.
  A \<open>TypeError\<close> is serialised with its name and the engine's message; it has no code.
\<close>

definition serialize_error :: "collaborators \<Rightarrow> thunk_error \<Rightarrow> ErrorInfo" where
  "serialize_error extra e =
     (case e of
        TypeError site \<Rightarrow>
          \<lparr>code = None, message = Some (TypeError_message extra site), name' = Some ''TypeError''\<rparr>
      | RequestFailed info \<Rightarrow> info)"

definition cycle ::
  "collaborators \<Rightarrow> string option \<Rightarrow> TransactionManualState \<Rightarrow> TransactionManualState" where
  "cycle extra address state =
     (case getTransactionsByAddress extra address of
        Inl e \<Rightarrow> txSlice_reducer (txSlice_reducer state pending) (rejected (serialize_error extra e))
      | Inr payload \<Rightarrow> txSlice_reducer (txSlice_reducer state pending) (fulfilled payload))"

text \<open>
  A sequence number belongs to one transaction: two references with the same sequence
  number have the same digest (a reference may be listed more than once).
\<close>

definition sequence_numbers_unique :: "reference list \<Rightarrow> bool" where
  "sequence_numbers_unique refs =
     (\<forall>r1\<in>set refs. \<forall>r2\<in>set refs. fst r1 = fst r2 \<longrightarrow> snd r1 = snd r2)"

subsection \<open>A concrete node\<close>

text \<open>
  An account with three transactions, one of them listed twice: a transfer of an object,
  a transfer of SUI, and a batch of two transfers.  The node answers every request with
  these, and the object batch with the one object transferred.
\<close>

definition example_refs :: "reference list" where
  "example_refs = [(2, ''d2''), (1, ''d1''), (2, ''d2''), (3, ''d3'')]"

definition sui_transfer :: SuiTransaction where
  "sui_transfer = \<lparr>kindName = ''TransferSui'',
                    transferSui = Some (SuiTransferSui ''0xB'' (Some 5)),
                    transferObject = None, moveCall = None\<rparr>"

definition object_transfer :: SuiTransaction where
  "object_transfer = \<lparr>kindName = ''TransferObject'',
                       transferSui = None,
                       transferObject = Some (TransferObject ''0xB'' ''0xobj''),
                       moveCall = None\<rparr>"

definition example_effect :: "digest \<Rightarrow> SuiTransaction list \<Rightarrow> TransactionEffectsResponse" where
  "example_effect d txns =
     \<lparr>transactionDigest = d, transactions = txns, sender = ''0xA'',
      executionStatusType = success, totalGasUsed = 10, executionStatusError = None,
      timestamp_ms = Some 1000, created = None\<rparr>"

definition example_object :: SuiObject where
  "example_object =
     \<lparr>reference_objectId = ''0xobj'',
      data = \<lparr>data_type = Some ''0x2::coin::Coin<0x2::sui::SUI>'',
              data_fields = Some \<lparr>fields_description = None, fields_name = None,
                                  fields_url = None, fields_balance = Some 7\<rparr>\<rparr>\<rparr>"

text \<open>The messages of one engine, for the three places that raise.\<close>

fun example_messages :: "throw_site \<Rightarrow> string" where
  "example_messages no_reference = ''undefined is not iterable''"
| "example_messages no_transaction = ''Cannot convert undefined or null to object''"
| "example_messages no_fields = ''Cannot read properties of undefined (reading 'description')''"

text \<open>
  A node is given by its three answers; the object batch holds the objects asked for.
  The two methods of \<open>Coin\<close> are here those of the class of the SDK.
\<close>

definition node ::
  "reference list \<Rightarrow> TransactionEffectsResponse list \<Rightarrow> SuiObject list \<Rightarrow> collaborators" where
  "node refs txEffs objs =
     \<lparr>getTransactionsForAddress = (\<lambda>a. Inr (map Some refs)),
      getTransactionWithEffectsBatch = (\<lambda>ds. Inr txEffs),
      batchFetchObject = (\<lambda>ids. Some (filter (\<lambda>obj. reference_objectId obj \<in> set ids) objs)),
      Coin_getCoinTypeArg = (\<lambda>d. getCoinTypeArg (MoveObject (data_type d))),
      Coin_getCoinSymbol = getCoinSymbol,
      TypeError_message = example_messages\<rparr>"

definition example_api :: collaborators where
  "example_api =
     node example_refs
       [example_effect ''d2'' [object_transfer],
        example_effect ''d3'' [sui_transfer, object_transfer],
        example_effect ''d1'' [sui_transfer]]
       [example_object]"

text \<open>The two entries the thunk returns on this node, for the address \<open>0xA\<close>.\<close>

definition example_entries :: "TxResultState list" where
  "example_entries =
     [\<lparr>to = Some ''0xB'', seq = 2, txId = ''d2'', status = success, txGas = 10,
       kind = Some ''TransferObject'', from' = ''0xA'', amount = None,
       timestampMs = Some 1000, url = None, objectId = Some ''0xobj'', description = None,
       name = None, isSender = Some True, error' = None, balance = Some 7,
       callFunctionName = Some ''Call (undefined)'', coinSymbol = Some ''SUI''\<rparr>,
      \<lparr>to = Some ''0xB'', seq = 1, txId = ''d1'', status = success, txGas = 10,
       kind = Some ''TransferSui'', from' = ''0xA'', amount = Some 5,
       timestampMs = Some 1000, url = None, objectId = None, description = None,
       name = None, isSender = Some True, error' = None, balance = None,
       callFunctionName = Some ''Call (undefined)'', coinSymbol = None\<rparr>]"

text \<open>The same two entries before the objects are merged.\<close>

definition example_resp :: "TxResultState list" where
  "example_resp = map (\<lambda>itm. itm\<lparr>balance := None, coinSymbol := None\<rparr>) example_entries"

text \<open>
  A node that answers the request for the one digest \<open>d1\<close> with the response of \<open>d1\<close>
  twice.
\<close>

definition repeating_api :: collaborators where
  "repeating_api =
     node [(1, ''d1'')]
       [example_effect ''d1'' [sui_transfer], example_effect ''d1'' [sui_transfer]]
       []"

text \<open>
  An account with a transfer of SUI and a publish transaction whose first created object
  is the package published.  The object batch holds the package, whose data has no
  \<open>type\<close> and no \<open>fields\<close>.
\<close>

definition publish :: SuiTransaction where
  "publish = \<lparr>kindName = ''Publish'', transferSui = None, transferObject = None,
               moveCall = None\<rparr>"

definition publish_effect :: TransactionEffectsResponse where
  "publish_effect = (example_effect ''p1'' [publish])\<lparr>created := Some [''0xpkg'']\<rparr>"

definition package_object :: SuiObject where
  "package_object =
     \<lparr>reference_objectId = ''0xpkg'', data = \<lparr>data_type = None, data_fields = None\<rparr>\<rparr>"

definition publishing_refs :: "reference list" where
  "publishing_refs = [(2, ''p1''), (1, ''d1'')]"

definition publishing_api :: collaborators where
  "publishing_api =
     node publishing_refs [publish_effect, example_effect ''d1'' [sui_transfer]] [package_object]"

text \<open>
  The same account with one more transaction, a batch of two transfers, whose response
  stands between the other two.
\<close>

definition mixed_api :: collaborators where
  "mixed_api =
     node ((3, ''d3'') # publishing_refs)
       [publish_effect,
        example_effect ''d3'' [sui_transfer, object_transfer],
        example_effect ''d1'' [sui_transfer]]
       [package_object]"

text \<open>The two entries of this account before the objects are merged.\<close>

definition publishing_resp :: "TxResultState list" where
  "publishing_resp =
     [\<lparr>to = None, seq = 2, txId = ''p1'', status = success, txGas = 10,
       kind = Some ''Publish'', from' = ''0xA'', amount = None,
       timestampMs = Some 1000, url = None, objectId = Some ''0xpkg'', description = None,
       name = None, isSender = Some True, error' = None, balance = None,
       callFunctionName = Some ''Call (undefined)'', coinSymbol = None\<rparr>,
      example_entries ! 1]"

section \<open>Numbers: exponent and rounding\<close>

lemma pow2_numeral:
  "pow2 (numeral n) = 2 ^ numeral n"
  "pow2 (- numeral n) = 1 / 2 ^ numeral n"
  "pow2 0 = 1" "pow2 1 = 2" "pow2 (- 1) = 1 / 2"
  by (simp_all add: pow2_def)

lemma pow2_pos [simp]: "0 < pow2 e"
  by (simp add: pow2_def)

lemma pow2_nonzero [simp]: "pow2 e \<noteq> 0"
  by (simp add: pow2_def)

lemma pow2_add: "pow2 (a + b) = pow2 a * pow2 b"
proof -
  have "pow2 e = 2 powi e" for e
    by (simp add: pow2_def power_int_def field_simps)
  then show ?thesis
    by (simp add: power_int_add)
qed

lemma pow2_mono: "a \<le> b \<Longrightarrow> pow2 a \<le> pow2 b"
proof -
  have e: "pow2 e = 2 powi e" for e
    by (simp add: pow2_def power_int_def field_simps)
  show "a \<le> b \<Longrightarrow> pow2 a \<le> pow2 b"
    unfolding e by (rule power_int_increasing) simp_all
qed

lemma pow2_strict_mono: "a < b \<Longrightarrow> pow2 a < pow2 b"
proof -
  have e: "pow2 e = 2 powi e" for e
    by (simp add: pow2_def power_int_def field_simps)
  show "a < b \<Longrightarrow> pow2 a < pow2 b"
    unfolding e by (rule power_int_strict_increasing) simp_all
qed

lemma pow2_less_cancel: "pow2 a < pow2 b \<Longrightarrow> a < b"
  using pow2_mono[of b a] by (cases "a < b") auto

text \<open>The exponent computed from the bit lengths is the one of the binade.\<close>

lemma pow2_of_bitlen:
  assumes "0 < (p::int)"
  shows "pow2 (bitlen p - 1) \<le> of_int p" and "of_int p < pow2 (bitlen p)"
proof -
  from bitlen_bounds[OF assms]
  have lo: "2 ^ nat (bitlen p - 1) \<le> p" and hi: "p < 2 ^ nat (bitlen p)" by simp_all
  have b: "1 \<le> bitlen p"
    using assms bitlen_eq_zero_iff[of p] bitlen_nonneg[of p] by (cases "bitlen p = 0") auto
  have "(of_int (2 ^ nat (bitlen p - 1)) :: rat) \<le> of_int p"
    using lo by (simp only: of_int_le_iff)
  then show "pow2 (bitlen p - 1) \<le> of_int p"
    using b by (simp add: pow2_def)
  have "(of_int p :: rat) < of_int (2 ^ nat (bitlen p))"
    using hi by (simp only: of_int_less_iff)
  then show "of_int p < pow2 (bitlen p)"
    using b by (simp add: pow2_def)
qed

lemma floor_log2_bounds:
  assumes "0 < x"
  shows "pow2 (floor_log2 x) \<le> x" and "x < pow2 (floor_log2 x + 1)"
proof -
  obtain p q where pq: "quotient_of x = (p, q)" by (cases "quotient_of x")
  then have q: "0 < q" and x: "x = of_int p / of_int q"
    using quotient_of_denom_pos[of x p q] quotient_of_div[of x p q] by simp_all
  have p: "0 < p"
    using assms q x by (simp add: zero_less_divide_iff)
  let ?P = "of_int p :: rat" and ?Q = "of_int q :: rat"
  let ?d = "bitlen p - bitlen q"
  have Q: "0 < ?Q" using q by simp
  note P1 = pow2_of_bitlen[OF p] and Q1 = pow2_of_bitlen[OF q]
  have up: "x < pow2 (?d + 1)"
  proof -
    have "?P < pow2 (?d + 1) * pow2 (bitlen q - 1)"
      using P1(2) pow2_add[of "?d + 1" "bitlen q - 1"] by simp
    also have "\<dots> \<le> pow2 (?d + 1) * ?Q"
      using Q1(1) by (simp add: mult_left_mono)
    finally show ?thesis
      using Q by (simp add: x pos_divide_less_eq)
  qed
  have lo: "pow2 (?d - 1) \<le> x"
  proof -
    have "pow2 (?d - 1) * ?Q \<le> pow2 (?d - 1) * pow2 (bitlen q)"
      using Q1(2) by (simp add: mult_left_mono)
    also have "\<dots> = pow2 (bitlen p - 1)"
      using pow2_add[of "?d - 1" "bitlen q"] by simp
    also have "\<dots> \<le> ?P" by (rule P1(1))
    finally show ?thesis
      using Q by (simp add: x pos_le_divide_eq)
  qed
  have f: "floor_log2 x = (if pow2 ?d \<le> x then ?d else ?d - 1)"
    by (simp add: floor_log2_def pq)
  show "pow2 (floor_log2 x) \<le> x"
    using lo by (simp add: f)
  show "x < pow2 (floor_log2 x + 1)"
    using up by (auto simp: f)
qed

lemma floor_log2_unique:
  assumes "0 < x" and "pow2 e \<le> x" and "x < pow2 (e + 1)"
  shows "floor_log2 x = e"
proof -
  from floor_log2_bounds[OF assms(1)] assms(2,3)
  have a: "pow2 (floor_log2 x) < pow2 (e + 1)" and b: "pow2 e < pow2 (floor_log2 x + 1)"
    by simp_all
  have "floor_log2 x < e + 1"
    using a by (rule pow2_less_cancel)
  moreover have "e < floor_log2 x + 1"
    using b by (rule pow2_less_cancel)
  ultimately show ?thesis by simp
qed

text \<open>
  Rounding a positive rational whose binade and significand are known, and the values this
  development evaluates.
\<close>

lemma nearest_magnitude_eval:
  assumes "0 < x" and "pow2 e \<le> x" and "x < pow2 (e + 1)" and "- 1022 \<le> e"
    and "round_half_even (x / pow2 (e - 52)) = m"
  shows "nearest_magnitude x = of_int m * pow2 (e - 52)"
proof -
  have "floor_log2 x = e"
    using assms(1-3) by (simp add: floor_log2_unique)
  then have "max (floor_log2 x) (- 1022) = e"
    using assms(4) by simp
  then show ?thesis
    using assms(5) by (simp add: nearest_magnitude_def Let_def)
qed

lemma round_binary64_pos:
  assumes "0 < x" and "pow2 e \<le> x" and "x < pow2 (e + 1)" and "- 1022 \<le> e"
    and "round_half_even (x / pow2 (e - 52)) = m" and "0 < m"
    and "of_int m * pow2 (e - 52) < pow2 1024"
  shows "round_binary64 x = Finite (of_int m * pow2 (e - 52))"
  using assms(1,6,7) nearest_magnitude_eval[OF assms(1-5)]
  by (simp add: round_binary64_def Let_def)

lemma round_binary64_minus:
  "x \<noteq> 0 \<Longrightarrow> round_binary64 (- x) = negate (round_binary64 x)"
  by (cases "0 < x") (auto simp: round_binary64_def Let_def negate_def)

lemma floor_rat_numeral_divide:
  "\<lfloor>(numeral a :: rat) / numeral b\<rfloor> = numeral a div numeral b"
  using floor_divide_of_int_eq[of "numeral a" "numeral b", where ?'a = rat] by simp

lemma round_half_even_of_int: "round_half_even (of_int n) = n"
  by (simp add: round_half_even_def)

lemma binary64_1e_8:
  "round_binary64 (1 / 10 ^ 8) = Finite (3022314549036573 / 2 ^ 78)"
proof -
  have "round_half_even ((1 / 10 ^ 8) / pow2 (- 27 - 52)) = 6044629098073146"
    by (simp add: round_half_even_def Let_def floor_rat_numeral_divide pow2_numeral)
  from round_binary64_pos[of "1 / 10 ^ 8" "- 27", OF _ _ _ _ this]
  show ?thesis by (simp add: pow2_numeral)
qed

lemma binary64_5e_9:
  "round_binary64 (5 / 10 ^ 9) = Finite (3022314549036573 / 2 ^ 79)"
proof -
  have "round_half_even ((5 / 10 ^ 9) / pow2 (- 28 - 52)) = 6044629098073146"
    by (simp add: round_half_even_def Let_def floor_rat_numeral_divide pow2_numeral)
  from round_binary64_pos[of "5 / 10 ^ 9" "- 28", OF _ _ _ _ this]
  show ?thesis by (simp add: pow2_numeral)
qed

lemma binary64_5: "round_binary64 5 = Finite 5"
proof -
  have "round_half_even (5 / pow2 (2 - 52)) = 5 * 2 ^ 50"
    using round_half_even_of_int[of "5 * 2 ^ 50"] by (simp add: pow2_numeral)
  from round_binary64_pos[of 5 2, OF _ _ _ _ this]
  show ?thesis by (simp add: pow2_numeral)
qed

lemma binary64_5e8: "round_binary64 500000000 = Finite 500000000"
proof -
  have "round_half_even (500000000 / pow2 (28 - 52)) = 500000000 * 2 ^ 24"
    using round_half_even_of_int[of "500000000 * 2 ^ 24"] by (simp add: pow2_numeral)
  from round_binary64_pos[of 500000000 28, OF _ _ _ _ this]
  show ?thesis by (simp add: pow2_numeral)
qed

lemma binary64_half: "round_binary64 (1 / 2) = Finite (1 / 2)"
proof -
  have "round_half_even ((1 / 2) / pow2 (- 1 - 52)) = 2 ^ 52"
    using round_half_even_of_int[of "2 ^ 52"] by (simp add: pow2_numeral)
  from round_binary64_pos[of "1 / 2" "- 1", OF _ _ _ _ this]
  show ?thesis by (simp add: pow2_numeral)
qed

lemma binary64_5_halves: "round_binary64 (5 / 2) = Finite (5 / 2)"
proof -
  have "round_half_even ((5 / 2) / pow2 (1 - 52)) = 5 * 2 ^ 50"
    using round_half_even_of_int[of "5 * 2 ^ 50"] by (simp add: pow2_numeral)
  from round_binary64_pos[of "5 / 2" 1, OF _ _ _ _ this]
  show ?thesis by (simp add: pow2_numeral)
qed

text \<open>Rounding is monotone: a greater rational has no smaller nearest magnitude.\<close>

lemma round_half_even_near: "\<bar>of_int (round_half_even q) - q\<bar> \<le> 1 / 2"
proof -
  have "of_int \<lfloor>q\<rfloor> \<le> q" and "q < of_int \<lfloor>q\<rfloor> + 1"
    by linarith+
  then show ?thesis
    by (auto simp: round_half_even_def Let_def)
qed

lemma round_half_even_mono:
  assumes "a \<le> b"
  shows "round_half_even a \<le> round_half_even b"
proof (rule ccontr)
  assume "\<not> round_half_even a \<le> round_half_even b"
  then have gt: "round_half_even b + 1 \<le> round_half_even a" by simp
  then have "(of_int (round_half_even b) :: rat) + 1 \<le> of_int (round_half_even a)"
    by (metis of_int_1 of_int_add of_int_le_iff)
  with round_half_even_near[of a] round_half_even_near[of b] assms
  have "a = b" by linarith
  with gt show False by simp
qed

lemma floor_log2_mono:
  assumes "0 < x" and "x \<le> y"
  shows "floor_log2 x \<le> floor_log2 y"
proof -
  have "0 < y" using assms by simp
  from floor_log2_bounds(1)[OF assms(1)] floor_log2_bounds(2)[OF \<open>0 < y\<close>] assms(2)
  have "pow2 (floor_log2 x) < pow2 (floor_log2 y + 1)" by simp
  then have "floor_log2 x < floor_log2 y + 1" by (rule pow2_less_cancel)
  then show ?thesis by simp
qed

lemma pow2_shift:
  "pow2 (e + 1) = of_int (2 ^ 53) * pow2 (e - 52)"
  "pow2 e = of_int (2 ^ 52) * pow2 (e - 52)"
  using pow2_add[of 53 "e - 52"] pow2_add[of 52 "e - 52"]
  by (simp_all add: add.commute pow2_numeral)

lemma scaled_le:
  fixes u :: rat
  assumes "0 < u"
  shows "x \<le> of_int n * u \<Longrightarrow> round_half_even (x / u) \<le> n"
    and "of_int n * u \<le> x \<Longrightarrow> n \<le> round_half_even (x / u)"
proof -
  show "round_half_even (x / u) \<le> n" if "x \<le> of_int n * u"
  proof -
    from that assms have "x / u \<le> of_int n" by (simp add: pos_divide_le_eq)
    then have "round_half_even (x / u) \<le> round_half_even (of_int n)"
      by (rule round_half_even_mono)
    then show ?thesis by (simp only: round_half_even_of_int)
  qed
  show "n \<le> round_half_even (x / u)" if "of_int n * u \<le> x"
  proof -
    from that assms have "of_int n \<le> x / u" by (simp add: pos_le_divide_eq)
    then have "round_half_even (of_int n) \<le> round_half_even (x / u)"
      by (rule round_half_even_mono)
    then show ?thesis by (simp only: round_half_even_of_int)
  qed
qed

lemma of_int_times_mono:
  fixes u :: rat
  assumes "0 < u" and "m \<le> n"
  shows "of_int m * u \<le> of_int n * u"
proof -
  have "(of_int m :: rat) \<le> of_int n" using assms(2) by (simp only: of_int_le_iff)
  then show ?thesis using assms(1) by (simp add: mult_right_mono)
qed

lemma nearest_magnitude_upper:
  assumes "0 < x"
  shows "nearest_magnitude x \<le> pow2 (max (floor_log2 x) (- 1022) + 1)"
proof -
  let ?e = "max (floor_log2 x) (- 1022)"
  let ?u = "pow2 (?e - 52)"
  have u: "0 < ?u" by (rule pow2_pos)
  have "x < pow2 (floor_log2 x + 1)" by (rule floor_log2_bounds(2)[OF assms])
  also have "\<dots> \<le> pow2 (?e + 1)" by (rule pow2_mono) simp
  finally have "x \<le> of_int (2 ^ 53) * ?u" by (simp only: pow2_shift(1))
  then have "round_half_even (x / ?u) \<le> 2 ^ 53"
    by (rule scaled_le(1)[OF u])
  then have "of_int (round_half_even (x / ?u)) * ?u \<le> of_int (2 ^ 53) * ?u"
    by (rule of_int_times_mono[OF u])
  then have "of_int (round_half_even (x / ?u)) * ?u \<le> pow2 (?e + 1)"
    by (simp only: pow2_shift(1))
  then show ?thesis by (simp only: nearest_magnitude_def Let_def)
qed

lemma nearest_magnitude_lower:
  assumes "0 < x" and "- 1022 \<le> floor_log2 x"
  shows "pow2 (floor_log2 x) \<le> nearest_magnitude x"
proof -
  let ?e = "floor_log2 x"
  let ?u = "pow2 (?e - 52)"
  have u: "0 < ?u" by (rule pow2_pos)
  have e: "max ?e (- 1022) = ?e" using assms(2) by simp
  have "pow2 ?e \<le> x" by (rule floor_log2_bounds(1)[OF assms(1)])
  then have "of_int (2 ^ 52) * ?u \<le> x" by (simp only: pow2_shift(2)[symmetric])
  then have "2 ^ 52 \<le> round_half_even (x / ?u)"
    by (rule scaled_le(2)[OF u])
  then have "of_int (2 ^ 52) * ?u \<le> of_int (round_half_even (x / ?u)) * ?u"
    by (rule of_int_times_mono[OF u])
  then have "pow2 ?e \<le> of_int (round_half_even (x / ?u)) * ?u"
    by (simp only: pow2_shift(2)[symmetric])
  then show ?thesis by (simp only: nearest_magnitude_def Let_def e)
qed

lemma nearest_magnitude_mono:
  assumes "0 < x" and "x \<le> y"
  shows "nearest_magnitude x \<le> nearest_magnitude y"
proof -
  have y: "0 < y" using assms by simp
  let ?ex = "max (floor_log2 x) (- 1022)" and ?ey = "max (floor_log2 y) (- 1022)"
  have le: "?ex \<le> ?ey" using floor_log2_mono[OF assms] by simp
  show ?thesis
  proof (cases "?ex = ?ey")
    case True
    have u: "0 < pow2 (?ey - 52)" by (rule pow2_pos)
    have "x / pow2 (?ey - 52) \<le> y / pow2 (?ey - 52)"
      by (rule divide_right_mono[OF assms(2) less_imp_le[OF u]])
    then have "round_half_even (x / pow2 (?ey - 52)) \<le> round_half_even (y / pow2 (?ey - 52))"
      by (rule round_half_even_mono)
    then have "of_int (round_half_even (x / pow2 (?ey - 52))) * pow2 (?ey - 52)
               \<le> of_int (round_half_even (y / pow2 (?ey - 52))) * pow2 (?ey - 52)"
      by (rule of_int_times_mono[OF u])
    then show ?thesis
      using True by (simp add: nearest_magnitude_def Let_def)
  next
    case False
    with le have lt: "?ex + 1 \<le> ?ey" by simp
    then have ey: "floor_log2 y = ?ey" and n: "- 1022 \<le> floor_log2 y" by auto
    have "nearest_magnitude x \<le> pow2 (?ex + 1)"
      by (rule nearest_magnitude_upper[OF assms(1)])
    also have "\<dots> \<le> pow2 ?ey" using lt by (rule pow2_mono)
    also have "\<dots> \<le> nearest_magnitude y"
      using nearest_magnitude_lower[OF y n] ey by simp
    finally show ?thesis .
  qed
qed

lemma nearest_magnitude_nonneg:
  assumes "0 < x"
  shows "0 \<le> nearest_magnitude x"
proof -
  let ?u = "pow2 (max (floor_log2 x) (- 1022) - 52)"
  have u: "0 < ?u" by (rule pow2_pos)
  have "of_int 0 * ?u \<le> x" using assms by simp
  then have "0 \<le> round_half_even (x / ?u)"
    by (rule scaled_le(2)[OF u])
  then have "of_int 0 * ?u \<le> of_int (round_half_even (x / ?u)) * ?u"
    by (rule of_int_times_mono[OF u])
  then show ?thesis
    by (simp add: nearest_magnitude_def Let_def)
qed

section \<open>Coin amounts: parsing\<close>

lemma skip_white_space_none: "white_space_length s = 0 \<Longrightarrow> skip_white_space s = s"
  by (simp add: skip_white_space.simps)

lemma skip_examples:
  "skip_white_space ''-2.5'' = ''-2.5''"
  "skip_white_space [] = []"
  "skip_white_space ''abc'' = ''abc''"
  by (rule skip_white_space_none, simp add: white_space_length_def)+

lemma parseFloat_minus_2_5: "parseFloat ''-2.5'' = Finite (- 5 / 2)"
proof -
  have "parseFloat ''-2.5'' = negate (round_binary64 (5 / 2))"
    by (simp add: parseFloat_def unsigned_literal_value_def Let_def skip_examples pow10_def
        is_digit_def digits_value_def exponent_part_def)
  then show ?thesis
    by (simp add: binary64_5_halves negate_def)
qed

lemma parseFloat_empty: "parseFloat [] = NaN"
  by (simp add: parseFloat_def unsigned_literal_value_def Let_def skip_examples)

lemma parseFloat_abc: "parseFloat ''abc'' = NaN"
  by (simp add: parseFloat_def unsigned_literal_value_def Let_def skip_examples is_digit_def)

text \<open>
  The rounding the specification states for Claim C4 fails on a negative tie: the string
  \<open>-2.5\<close> with denomination 1 gives \<open>-2\<close>, where rounding half away from zero gives
  \<open>-3\<close>.
\<close>

theorem negative_tie_counterexample:
  "parseFloat ''-2.5'' = Finite (- 5 / 2)
   \<and> number_times (parseFloat ''-2.5'') (Finite 1) = Finite (- 5 / 2)
   \<and> fromInput ''-2.5'' (Finite 1) = Inr (- 2)
   \<and> round_half_away_from_zero (- 5 / 2 * 1) = - 3"
proof -
  have t: "number_times (Finite (- 5 / 2)) (Finite 1) = Finite (- 5 / 2)"
    using round_binary64_minus[of "5 / 2"]
    by (simp add: number_times_def is_infinite_def is_zero_def binary64_5_halves negate_def)
  have r: "Math_round (Finite (- 5 / 2)) = Finite (- 2)"
  proof -
    have "\<lfloor>- 5 / 2 + 1 / 2 :: rat\<rfloor> = - 2" by simp
    then show ?thesis by (simp add: Math_round_def Let_def)
  qed
  have f: "fromInput ''-2.5'' (Finite 1) = Inr (- 2)"
    by (simp add: fromInput_def Let_def parseFloat_minus_2_5 t[simplified] r[simplified]
        BigInt_def)
  have h: "round_half_away_from_zero (- 5 / 2 * 1) = - 3"
  proof -
    have "\<lfloor>5 / 2 + 1 / 2 :: rat\<rfloor> = 3" by simp
    then show ?thesis by (simp add: round_half_away_from_zero_def)
  qed
  show ?thesis
    using parseFloat_minus_2_5 t f h by simp
qed

lemma getFormatData_value:
  "value' (getFormatData bal c m)
     = number_divide (Number_of_bigint bal) (ToNumber (denomination_of c))"
  by (simp add: getFormatData_def Let_def)

lemma not_inherited_examples:
  "''0x2::sui::SUI'' \<notin> set Object_prototype_names"
  "''pkg::sui::SUI'' \<notin> set Object_prototype_names"
  "''toString'' \<in> set Object_prototype_names"
  by (simp_all add: Object_prototype_names_def)

lemma denomination_of_eq:
  "denomination_of c =
     (if c = ''0x2::sui::SUI'' then NumberValue (Finite (10 ^ 9))
      else if c \<in> set Object_prototype_names then InheritedMember
      else NumberValue (Finite 1))"
  using not_inherited_examples(1)
  by (simp add: denomination_of_def COIN_DENOMINATIONS_def truthy_number_def is_zero_def)

lemma denomination_of_number:
  "c \<notin> set Object_prototype_names \<Longrightarrow>
   denomination_of c = NumberValue (Finite (if c = ''0x2::sui::SUI'' then 10 ^ 9 else 1))"
  by (simp add: denomination_of_eq)

lemma value_5_sui:
  "value' (getFormatData 5 ''0x2::sui::SUI'' loose) = Finite (3022314549036573 / 2 ^ 79)"
  using binary64_5e_9
  by (simp add: getFormatData_value denomination_of_eq Number_of_bigint_def binary64_5
      number_divide_def is_infinite_def is_zero_def)

text \<open>
  The placeholder the specification states for Claim C2 is not the one returned: for a
  balance of 5 of the smallest unit of SUI the value is below \<open>1e-8\<close> and the forced
  value is hyphen, space, hyphen, not two en dashes.
\<close>

theorem placeholder_is_ascii:
  "number_less (value' (getFormatData 5 ''0x2::sui::SUI'' loose)) literal_1e_8
   \<and> forcedFormatValue (getFormatData 5 ''0x2::sui::SUI'' loose) = Some ''- -''
   \<and> forcedFormatValue (getFormatData 5 ''0x2::sui::SUI'' loose) \<noteq> Some en_dash_placeholder"
proof -
  have l: "number_less (value' (getFormatData 5 ''0x2::sui::SUI'' loose)) literal_1e_8"
    by (simp add: value_5_sui literal_1e_8_def binary64_1e_8[simplified] number_less_def)
  then have "forcedFormatValue (getFormatData 5 ''0x2::sui::SUI'' loose) = Some ''- -''"
    by (simp add: getFormatData_def Let_def)
  then show ?thesis
    using l by (simp add: en_dash_placeholder_def)
qed

lemma round_binary64_not_NaN [simp]: "round_binary64 x \<noteq> NaN"
  by (simp add: round_binary64_def Let_def)

lemma negate_NaN_iff [simp]: "(negate a = NaN) = (a = NaN)"
  by (cases a) (simp_all add: negate_def)

lemma takeWhile_Nil_iff: "(takeWhile P u = []) = (\<forall>c cs. u = c # cs \<longrightarrow> \<not> P c)"
  by (cases u) auto

lemma unsigned_literal_value_NaN_iff:
  "(unsigned_literal_value u = NaN)
   = (\<not> (take 8 u = ''Infinity''
         \<or> (\<exists>c cs. u = c # cs \<and> is_digit c)
         \<or> (\<exists>c cs. u = CHR ''.'' # c # cs \<and> is_digit c)))"
proof (cases "take 8 u = ''Infinity''")
  case True
  then show ?thesis by (simp add: unsigned_literal_value_def)
next
  case inf: False
  show ?thesis
  proof (cases u)
    case Nil
    then show ?thesis by (simp add: unsigned_literal_value_def)
  next
    case (Cons c cs)
    show ?thesis
    proof (cases "is_digit c")
      case True
      with Cons inf show ?thesis
        by (simp add: unsigned_literal_value_def Let_def split: prod.splits)
    next
      case nd: False
      then have dot: "c = CHR ''.'' \<Longrightarrow> \<not> is_digit CHR ''.''" by simp
      show ?thesis
      proof (cases "c = CHR ''.''")
        case True
        with Cons inf nd show ?thesis
          by (cases cs) (auto simp: unsigned_literal_value_def Let_def split: prod.splits)
      next
        case False
        with Cons inf nd show ?thesis
          by (auto simp: unsigned_literal_value_def Let_def split: prod.splits)
      qed
    qed
  qed
qed

lemma parseFloat_NaN_iff: "(parseFloat s = NaN) = (\<not> parses_as_decimal s)"
proof -
  have "parseFloat s = NaN \<longleftrightarrow> unsigned_literal_value (unsigned_part s) = NaN"
    by (cases "skip_white_space s") (simp_all add: parseFloat_def unsigned_part_def)
  then show ?thesis
    unfolding unsigned_literal_value_NaN_iff by (simp add: parses_as_decimal_def Let_def)
qed

lemma number_times_NaN [simp]: "number_times NaN d = NaN"
  by (simp add: number_times_def)

text \<open>
  Claim C10.  \<open>fromInput\<close> does not return on every string.  \<open>parseFloat\<close> gives
  \<open>NaN\<close> exactly for the strings that do not parse as a decimal number; for every such
  string and every denomination the product is \<open>NaN\<close>, its rounding is \<open>NaN\<close>, and the
  conversion to a bigint throws a \<open>RangeError\<close>: no integer and no error value is returned.
\<close>

theorem fromInput_throws_without_number:
  "(parseFloat s = NaN) = (\<not> parses_as_decimal s)
   \<and> (\<not> parses_as_decimal s \<longrightarrow>
        number_times (parseFloat s) d = NaN
      \<and> Math_round (number_times (parseFloat s) d) = NaN
      \<and> fromInput s d = Inl RangeError)"
  by (simp add: parseFloat_NaN_iff[symmetric] fromInput_def Math_round_def BigInt_def)

text \<open>Digits, a point and digits parse to the number nearest to their decimal value.\<close>

lemma digit_not_white_space:
  assumes "is_digit c"
  shows "white_space_length (c # cs) = 0"
proof -
  have "(of_char c :: nat) \<in> {48..57}" using assms by (simp add: is_digit_def)
  then have "c \<notin> {CHR 0x09, CHR 0x0A, CHR 0x0B, CHR 0x0C, CHR 0x0D, CHR 0x20}"
    and "c \<noteq> CHR 0xC2" and "c \<noteq> CHR 0xE1" and "c \<noteq> CHR 0xE2" and "c \<noteq> CHR 0xE3"
    and "c \<noteq> CHR 0xEF"
    by auto
  then show ?thesis by (simp add: white_space_length_def)
qed

lemma digit_not_sign:
  assumes "is_digit c"
  shows "c \<noteq> CHR ''-''" and "c \<noteq> CHR ''+''" and "c \<noteq> CHR ''.''" and "c \<noteq> CHR ''I''"
  using assms by (auto simp: is_digit_def)

lemma takeWhile_digits:
  assumes "\<forall>c\<in>set ds. is_digit c"
  shows "takeWhile is_digit (ds @ CHR ''.'' # fs) = ds"
    and "dropWhile is_digit (ds @ CHR ''.'' # fs) = CHR ''.'' # fs"
    and "takeWhile is_digit ds = ds" and "dropWhile is_digit ds = []"
  using assms by (auto simp: takeWhile_append dropWhile_append is_digit_def)

lemma unsigned_literal_value_decimal:
  assumes "ds \<noteq> []" and "\<forall>c\<in>set ds. is_digit c" and "\<forall>c\<in>set fs. is_digit c"
  shows "unsigned_literal_value (ds @ CHR ''.'' # fs)
         = round_binary64 (of_nat (digits_value (ds @ fs)) / 10 ^ length fs)"
proof -
  obtain c cs where ds: "ds = c # cs" using assms(1) by (cases ds) auto
  then have "is_digit c" using assms(2) by simp
  then have "c \<noteq> CHR ''I''" by (rule digit_not_sign)
  then have inf: "take 8 (ds @ CHR ''.'' # fs) \<noteq> ''Infinity''"
    by (simp add: ds)
  have p: "pow10 (- int (length fs)) = 1 / 10 ^ length fs"
    by (simp add: pow10_def)
  show ?thesis
    using inf assms(1)
    by (simp add: unsigned_literal_value_def takeWhile_digits[OF assms(2)]
        takeWhile_digits(3,4)[OF assms(3)] exponent_part_def p)
qed

lemma parseFloat_decimal:
  assumes "ds \<noteq> []" and "\<forall>c\<in>set ds. is_digit c" and "\<forall>c\<in>set fs. is_digit c"
  shows "parseFloat (ds @ CHR ''.'' # fs)
           = round_binary64 (of_nat (digits_value (ds @ fs)) / 10 ^ length fs)"
    and "parseFloat (CHR ''-'' # ds @ CHR ''.'' # fs)
           = negate (round_binary64 (of_nat (digits_value (ds @ fs)) / 10 ^ length fs))"
proof -
  obtain c cs where ds: "ds = c # cs" using assms(1) by (cases ds) auto
  then have c: "is_digit c" using assms(2) by simp
  have s1: "skip_white_space (ds @ CHR ''.'' # fs) = ds @ CHR ''.'' # fs"
    by (rule skip_white_space_none) (simp add: ds digit_not_white_space[OF c])
  have s2: "skip_white_space (CHR ''-'' # ds @ CHR ''.'' # fs) = CHR ''-'' # ds @ CHR ''.'' # fs"
    by (rule skip_white_space_none) (simp add: white_space_length_def)
  note m = unsigned_literal_value_decimal[OF assms]
  show "parseFloat (ds @ CHR ''.'' # fs)
           = round_binary64 (of_nat (digits_value (ds @ fs)) / 10 ^ length fs)"
    using m digit_not_sign(1,2)[OF c] by (simp add: parseFloat_def s1) (simp add: ds)
  show "parseFloat (CHR ''-'' # ds @ CHR ''.'' # fs)
           = negate (round_binary64 (of_nat (digits_value (ds @ fs)) / 10 ^ length fs))"
    using m by (simp add: parseFloat_def s2)
qed

section \<open>Coin amounts: formatting\<close>

lemma round_binary64_positive:
  assumes "0 < x"
  shows "round_binary64 x =
           (if pow2 1024 \<le> nearest_magnitude x then PosInfinity
            else Finite (nearest_magnitude x))"
  using assms by (simp add: round_binary64_def Let_def)

lemma round_binary64_at_least:
  assumes "0 < q" and "q \<le> x"
  shows "round_binary64 x = PosInfinity
         \<or> (\<exists>z. round_binary64 x = Finite z \<and> nearest_magnitude q \<le> z)"
proof -
  have x: "0 < x" using assms by simp
  show ?thesis
    using nearest_magnitude_mono[OF assms] by (simp add: round_binary64_positive[OF x])
qed

lemma round_binary64_at_most:
  assumes "0 < x" and "x \<le> q" and "nearest_magnitude q < pow2 1024"
  shows "\<exists>z. round_binary64 x = Finite z \<and> 0 \<le> z \<and> z \<le> nearest_magnitude q"
  using nearest_magnitude_mono[OF assms(1,2)] nearest_magnitude_nonneg[OF assms(1)] assms(3)
  by (simp add: round_binary64_positive[OF assms(1)])

lemma nearest_magnitude_values:
  "nearest_magnitude 1 = 1"
  "nearest_magnitude 9 = 9"
  "nearest_magnitude 10 = 10"
  "nearest_magnitude (1 / 10 ^ 8) = 3022314549036573 / 2 ^ 78"
  "nearest_magnitude (9 / 10 ^ 9) = 5440166188265831 / 2 ^ 79"
proof -
  have "round_half_even (1 / pow2 (0 - 52)) = 2 ^ 52"
    using round_half_even_of_int[of "2 ^ 52"] by (simp add: pow2_numeral)
  from nearest_magnitude_eval[of 1 0, OF _ _ _ _ this]
  show "nearest_magnitude 1 = 1" by (simp add: pow2_numeral)
  have "round_half_even (9 / pow2 (3 - 52)) = 9 * 2 ^ 49"
    using round_half_even_of_int[of "9 * 2 ^ 49"] by (simp add: pow2_numeral)
  from nearest_magnitude_eval[of 9 3, OF _ _ _ _ this]
  show "nearest_magnitude 9 = 9" by (simp add: pow2_numeral)
  have "round_half_even (10 / pow2 (3 - 52)) = 10 * 2 ^ 49"
    using round_half_even_of_int[of "10 * 2 ^ 49"] by (simp add: pow2_numeral)
  from nearest_magnitude_eval[of 10 3, OF _ _ _ _ this]
  show "nearest_magnitude 10 = 10" by (simp add: pow2_numeral)
  have "round_half_even ((1 / 10 ^ 8) / pow2 (- 27 - 52)) = 6044629098073146"
    by (simp add: round_half_even_def Let_def floor_rat_numeral_divide pow2_numeral)
  from nearest_magnitude_eval[of "1 / 10 ^ 8" "- 27", OF _ _ _ _ this]
  show "nearest_magnitude (1 / 10 ^ 8) = 3022314549036573 / 2 ^ 78" by (simp add: pow2_numeral)
  have "round_half_even ((9 / 10 ^ 9) / pow2 (- 27 - 52)) = 5440166188265831"
    by (simp add: round_half_even_def Let_def floor_rat_numeral_divide pow2_numeral)
  from nearest_magnitude_eval[of "9 / 10 ^ 9" "- 27", OF _ _ _ _ this]
  show "nearest_magnitude (9 / 10 ^ 9) = 5440166188265831 / 2 ^ 79" by (simp add: pow2_numeral)
qed

lemma literal_1e_8_value: "literal_1e_8 = Finite (3022314549036573 / 2 ^ 78)"
proof -
  have p: "(0::rat) < 1 / 10 ^ 8" by simp
  show ?thesis
    unfolding literal_1e_8_def round_binary64_positive[OF p] nearest_magnitude_values(4)
    by (simp add: pow2_numeral)
qed

text \<open>The quotient of a rounded balance of at least ten units and \<open>10^9\<close> is not below \<open>1e-8\<close>.\<close>

lemma quotient_not_less:
  assumes "0 < d" and "1 / 10 ^ 8 \<le> q / d" and "0 < q" and "q \<le> x"
    and q: "nearest_magnitude q = q"
  shows "\<not> number_less (number_divide (round_binary64 x) (Finite d)) literal_1e_8"
proof -
  from round_binary64_at_least[OF assms(3,4)] q
  consider "round_binary64 x = PosInfinity"
    | z where "round_binary64 x = Finite z" and "q \<le> z"
    by auto
  then show ?thesis
  proof cases
    case 1
    then show ?thesis
      using assms(1)
      by (simp add: number_divide_def is_infinite_def signed_infinity_def number_less_def)
  next
    case 2
    have z: "0 < z" using 2(2) assms(3) by simp
    have "q / d \<le> z / d"
      by (rule divide_right_mono[OF 2(2) less_imp_le[OF assms(1)]])
    with assms(2) have le: "1 / 10 ^ 8 \<le> z / d" by (rule order_trans)
    have "(0::rat) < 1 / 10 ^ 8" by simp
    from round_binary64_at_least[OF this le]
    have "round_binary64 (z / d) = PosInfinity
          \<or> (\<exists>w. round_binary64 (z / d) = Finite w \<and> 3022314549036573 / 2 ^ 78 \<le> w)"
      unfolding nearest_magnitude_values(4) .
    then have "\<not> number_less (round_binary64 (z / d)) literal_1e_8"
      by (auto simp: literal_1e_8_value number_less_def)
    then show ?thesis
      using 2(1) z assms(1)
      by (simp add: number_divide_def is_infinite_def is_zero_def)
  qed
qed

lemma quotient_less:
  assumes "0 < d" and "q / d \<le> 9 / 10 ^ 9" and "0 < x" and "x \<le> q"
    and q: "nearest_magnitude q = q" and small: "q < pow2 1024"
  shows "number_less (number_divide (round_binary64 x) (Finite d)) literal_1e_8"
proof -
  from round_binary64_at_most[OF assms(3,4)] q small
  obtain z where r: "round_binary64 x = Finite z" and z: "0 \<le> z" "z \<le> q"
    by auto
  show ?thesis
  proof (cases "z = 0")
    case True
    then show ?thesis
      using r assms(1)
      by (simp add: number_divide_def is_infinite_def is_zero_def signed_zero_def
          number_less_def literal_1e_8_value)
  next
    case False
    with z have pos: "0 < z / d" using assms(1) by simp
    have "z / d \<le> q / d"
      by (rule divide_right_mono[OF z(2) less_imp_le[OF assms(1)]])
    then have le: "z / d \<le> 9 / 10 ^ 9" using assms(2) by (rule order_trans)
    have "nearest_magnitude (9 / 10 ^ 9) < pow2 1024"
      unfolding nearest_magnitude_values(5) by (simp add: pow2_numeral)
    from round_binary64_at_most[OF pos le this]
    have "\<exists>w. round_binary64 (z / d) = Finite w \<and> 0 \<le> w \<and> w \<le> 5440166188265831 / 2 ^ 79"
      unfolding nearest_magnitude_values(5) .
    then have "number_less (round_binary64 (z / d)) literal_1e_8"
      by (auto simp: literal_1e_8_value number_less_def)
    then show ?thesis
      using r False assms(1)
      by (simp add: number_divide_def is_infinite_def is_zero_def)
  qed
qed

lemma negative_less:
  assumes "0 < d" and "x < 0"
  shows "number_less (number_divide (round_binary64 x) (Finite d)) literal_1e_8"
proof -
  have nx: "0 < - x" using assms(2) by simp
  have rx: "round_binary64 x = negate (round_binary64 (- x))"
    using round_binary64_minus[of "- x"] assms(2) by simp
  show ?thesis
  proof (cases "pow2 1024 \<le> nearest_magnitude (- x)")
    case True
    then show ?thesis
      using assms(1)
      by (simp add: rx round_binary64_positive[OF nx] negate_def number_divide_def
          is_infinite_def signed_infinity_def number_less_def literal_1e_8_value)
  next
    case False
    let ?z = "nearest_magnitude (- x)"
    have z: "0 \<le> ?z" by (rule nearest_magnitude_nonneg[OF nx])
    show ?thesis
    proof (cases "?z = 0")
      case True
      then show ?thesis
        using False assms(1)
        by (simp add: rx round_binary64_positive[OF nx] negate_def number_divide_def
            is_infinite_def is_zero_def signed_zero_def number_less_def literal_1e_8_value)
    next
      case nz: False
      with z have zp: "0 < ?z / d" using assms(1) by simp
      have "?z / d \<noteq> 0" using nz assms(1) by simp
      then have q: "round_binary64 (- (?z / d)) = negate (round_binary64 (?z / d))"
        by (rule round_binary64_minus)
      have "number_less (negate (round_binary64 (?z / d))) literal_1e_8"
        using nearest_magnitude_nonneg[OF zp]
        by (simp add: round_binary64_positive[OF zp] negate_def number_less_def
            literal_1e_8_value)
      then show ?thesis
        using False nz assms(1) q
        by (simp add: rx round_binary64_positive[OF nx] negate_def number_divide_def
            is_infinite_def is_zero_def)
    qed
  qed
qed

lemma zero_less:
  assumes "0 < d"
  shows "number_less (number_divide (round_binary64 0) (Finite d)) literal_1e_8"
  using assms
  by (simp add: round_binary64_def number_divide_def is_infinite_def is_zero_def
      signed_zero_def number_less_def literal_1e_8_value)

lemma placeholder_exact_number:
  assumes n: "c \<notin> set Object_prototype_names"
  shows "number_less (value' (getFormatData bal c loose)) literal_1e_8
   = (rat_of_int bal / (if c = ''0x2::sui::SUI'' then 10 ^ 9 else 1) < 1 / 10 ^ 8)"
proof -
  let ?d = "if c = ''0x2::sui::SUI'' then 10 ^ 9 else 1 :: rat"
  let ?t = "if c = ''0x2::sui::SUI'' then 10 else 1 :: int"
  have d: "0 < ?d" by simp
  have v: "value' (getFormatData bal c loose)
           = number_divide (round_binary64 (of_int bal)) (Finite ?d)"
    by (simp add: getFormatData_value denomination_of_number[OF n] Number_of_bigint_def)
  have exact: "(rat_of_int bal / ?d < 1 / 10 ^ 8) = (bal < ?t)"
  proof (cases "c = ''0x2::sui::SUI''")
    case True
    have "(rat_of_int bal < 10) = (bal < 10)"
      using of_int_less_iff[of bal 10, where ?'a = rat] by simp
    with True show ?thesis by (simp add: field_simps)
  next
    case False
    have "(rat_of_int (bal * 100000000) < rat_of_int 1) = (bal * 100000000 < 1)"
      by (simp only: of_int_less_iff)
    moreover have "(bal * 100000000 < 1) = (bal < 1)" by arith
    ultimately have "(rat_of_int bal * 100000000 < 1) = (bal < 1)" by simp
    with False show ?thesis by (simp add: field_simps)
  qed
  consider "bal < 0" | "bal = 0" | "0 < bal" "bal < ?t" | "?t \<le> bal"
    by atomize_elim arith
  then have "number_less (number_divide (round_binary64 (of_int bal)) (Finite ?d)) literal_1e_8
             = (bal < ?t)"
  proof cases
    case 1
    then have "rat_of_int bal < 0" by simp
    from negative_less[OF d this] 1 show ?thesis by (simp split: if_splits)
  next
    case 2
    with zero_less[OF d] show ?thesis by simp
  next
    case 3
    then have c: "c = ''0x2::sui::SUI''" and b: "0 < rat_of_int bal" "rat_of_int bal \<le> 9"
      by (auto split: if_splits)
    have "number_less (number_divide (round_binary64 (of_int bal)) (Finite (10 ^ 9)))
            literal_1e_8"
      by (rule quotient_less[of _ 9, OF _ _ b])
         (simp_all add: nearest_magnitude_values pow2_numeral)
    with 3 c show ?thesis by simp
  next
    case 4
    have "\<not> number_less (number_divide (round_binary64 (of_int bal)) (Finite ?d)) literal_1e_8"
    proof (cases "c = ''0x2::sui::SUI''")
      case True
      with 4 have b: "(10::rat) \<le> rat_of_int bal" by simp
      have "\<not> number_less (number_divide (round_binary64 (of_int bal)) (Finite (10 ^ 9)))
            literal_1e_8"
        by (rule quotient_not_less[of _ 10, OF _ _ _ b])
           (simp_all add: nearest_magnitude_values)
      with True show ?thesis by simp
    next
      case False
      with 4 have b: "(1::rat) \<le> rat_of_int bal" by simp
      have "\<not> number_less (number_divide (round_binary64 (of_int bal)) (Finite 1))
            literal_1e_8"
        by (rule quotient_not_less[of _ 1, OF _ _ _ b])
           (simp_all add: nearest_magnitude_values)
      with False show ?thesis by simp
    qed
    with 4 show ?thesis by simp
  qed
  then show ?thesis
    by (simp only: v exact)
qed

lemma placeholder_inherited:
  assumes "c \<in> set Object_prototype_names"
  shows "value' (getFormatData bal c loose) = NaN"
    and "\<not> number_less (value' (getFormatData bal c loose)) literal_1e_8"
proof -
  have "c \<noteq> ''0x2::sui::SUI''"
    using assms not_inherited_examples(1) by auto
  then show v: "value' (getFormatData bal c loose) = NaN"
    using assms by (simp add: getFormatData_value denomination_of_eq number_divide_def)
  show "\<not> number_less (value' (getFormatData bal c loose)) literal_1e_8"
    by (simp add: v number_less_def)
qed

lemma placeholder_exact:
  "number_less (value' (getFormatData bal c loose)) literal_1e_8
   = (c \<notin> set Object_prototype_names
      \<and> rat_of_int bal / (if c = ''0x2::sui::SUI'' then 10 ^ 9 else 1) < 1 / 10 ^ 8)"
  using placeholder_exact_number[of c bal] placeholder_inherited(2)[of c bal]
  by (cases "c \<in> set Object_prototype_names") simp_all

lemma BigInt_Math_round_Finite: "BigInt (Math_round (Finite p)) = Inr \<lfloor>p + 1 / 2\<rfloor>"
  by (simp add: Math_round_def BigInt_def Let_def)

lemma nearest_ties_up:
  fixes p :: rat
  defines "r \<equiv> \<lfloor>p + 1 / 2\<rfloor>"
  shows "\<bar>of_int r - p\<bar> \<le> 1 / 2" and "\<bar>of_int r - p\<bar> = 1 / 2 \<Longrightarrow> p < of_int r"
proof -
  have lo: "of_int r \<le> p + 1 / 2" and hi: "p + 1 / 2 < of_int r + 1"
    unfolding r_def by linarith+
  show "\<bar>of_int r - p\<bar> \<le> 1 / 2"
    using lo hi by linarith
  show "p < of_int r" if "\<bar>of_int r - p\<bar> = 1 / 2"
    using lo hi that by linarith
qed

text \<open>
  Claim C4, as the code has it.  Let \<open>p\<close> be the product, in binary64 arithmetic, of the
  number parsed from the string and the denomination.  When \<open>p\<close> is finite, \<open>fromInput\<close>
  returns an integer nearest to \<open>p\<close>, and of two equally near integers the greater one
  (a tie goes towards \<open>+\<infinity>\<close>); for \<open>p \<ge> 0\<close> this is rounding half away from zero.
  For negative zero the result is 0; for \<open>NaN\<close> and the infinities the conversion throws.
  The number parsed from digits, a point and digits, with or without a minus sign, is the
  binary64 value nearest to their decimal value.
\<close>

theorem fromInput_nearest_ties_up:
  "(\<forall>p. number_times (parseFloat s) d = Finite p \<longrightarrow>
      (\<exists>r. fromInput s d = Inr r
           \<and> \<bar>of_int r - p\<bar> \<le> 1 / 2
           \<and> (\<bar>of_int r - p\<bar> = 1 / 2 \<longrightarrow> p < of_int r)
           \<and> (0 \<le> p \<longrightarrow> r = round_half_away_from_zero p)))
   \<and> (number_times (parseFloat s) d = NegZero \<longrightarrow> fromInput s d = Inr 0)
   \<and> (number_times (parseFloat s) d \<in> {NaN, PosInfinity, NegInfinity} \<longrightarrow>
        fromInput s d = Inl RangeError)
   \<and> (\<forall>ds fs. ds \<noteq> [] \<and> (\<forall>c\<in>set ds. is_digit c) \<and> (\<forall>c\<in>set fs. is_digit c) \<longrightarrow>
          parseFloat (ds @ CHR ''.'' # fs)
            = round_binary64 (of_nat (digits_value (ds @ fs)) / 10 ^ length fs)
        \<and> parseFloat (CHR ''-'' # ds @ CHR ''.'' # fs)
            = negate (round_binary64 (of_nat (digits_value (ds @ fs)) / 10 ^ length fs)))"
proof (intro conjI allI impI)
  fix p assume p: "number_times (parseFloat s) d = Finite p"
  have "fromInput s d = Inr \<lfloor>p + 1 / 2\<rfloor>"
    by (simp add: fromInput_def p BigInt_Math_round_Finite)
  moreover have "0 \<le> p \<longrightarrow> \<lfloor>p + 1 / 2\<rfloor> = round_half_away_from_zero p"
    by (simp add: round_half_away_from_zero_def)
  ultimately show "\<exists>r. fromInput s d = Inr r
           \<and> \<bar>of_int r - p\<bar> \<le> 1 / 2
           \<and> (\<bar>of_int r - p\<bar> = 1 / 2 \<longrightarrow> p < of_int r)
           \<and> (0 \<le> p \<longrightarrow> r = round_half_away_from_zero p)"
    using nearest_ties_up[of p] by blast
next
  assume "number_times (parseFloat s) d = NegZero"
  then show "fromInput s d = Inr 0"
    by (simp add: fromInput_def Math_round_def BigInt_def)
next
  assume "number_times (parseFloat s) d \<in> {NaN, PosInfinity, NegInfinity}"
  then show "fromInput s d = Inl RangeError"
    by (auto simp: fromInput_def Math_round_def BigInt_def)
next
  fix ds fs :: string
  assume a: "ds \<noteq> [] \<and> (\<forall>c\<in>set ds. is_digit c) \<and> (\<forall>c\<in>set fs. is_digit c)"
  then have a1: "ds \<noteq> []" and a2: "\<forall>c\<in>set ds. is_digit c" and a3: "\<forall>c\<in>set fs. is_digit c"
    by simp_all
  show "parseFloat (ds @ CHR ''.'' # fs)
            = round_binary64 (of_nat (digits_value (ds @ fs)) / 10 ^ length fs)"
    by (rule parseFloat_decimal(1)[OF a1 a2 a3])
  show "parseFloat (CHR ''-'' # ds @ CHR ''.'' # fs)
            = negate (round_binary64 (of_nat (digits_value (ds @ fs)) / 10 ^ length fs))"
    by (rule parseFloat_decimal(2)[OF a1 a2 a3])
qed

lemma skip_examples2:
  "skip_white_space ''2.5'' = ''2.5''"
  "skip_white_space ''-0'' = ''-0''"
  by (rule skip_white_space_none, simp add: white_space_length_def)+

lemma parseFloat_2_5: "parseFloat ''2.5'' = Finite (5 / 2)"
proof -
  have "parseFloat ''2.5'' = round_binary64 (5 / 2)"
    by (simp add: parseFloat_def unsigned_literal_value_def Let_def skip_examples2 pow10_def
        is_digit_def digits_value_def exponent_part_def)
  then show ?thesis
    by (simp add: binary64_5_halves)
qed

lemma parseFloat_minus_0: "parseFloat ''-0'' = NegZero"
  by (simp add: parseFloat_def unsigned_literal_value_def Let_def skip_examples2 pow10_def
      is_digit_def digits_value_def exponent_part_def round_binary64_def negate_def)

theorem fromInput_nearest_ties_up_witness:
  "number_times (parseFloat ''2.5'') (Finite 1) = Finite (5 / 2)
   \<and> fromInput ''2.5'' (Finite 1) = Inr 3
   \<and> number_times (parseFloat ''-0'') (Finite 1) = NegZero
   \<and> fromInput ''-0'' (Finite 1) = Inr 0
   \<and> number_times (parseFloat []) (Finite 1) = NaN
   \<and> fromInput [] (Finite 1) = Inl RangeError"
proof -
  have t: "number_times (parseFloat ''2.5'') (Finite 1) = Finite (5 / 2)"
    by (simp add: parseFloat_2_5 number_times_def is_infinite_def is_zero_def
        binary64_5_halves)
  from fromInput_nearest_ties_up[of "''2.5''" "Finite 1", THEN conjunct1, rule_format, OF t]
  obtain r where r: "fromInput ''2.5'' (Finite 1) = Inr r"
    and h: "0 \<le> (5 / 2 :: rat) \<longrightarrow> r = round_half_away_from_zero (5 / 2)"
    by blast
  have "\<lfloor>5 / 2 + 1 / 2 :: rat\<rfloor> = 3" by simp
  then have "round_half_away_from_zero (5 / 2) = 3"
    by (simp add: round_half_away_from_zero_def)
  with r h have a: "fromInput ''2.5'' (Finite 1) = Inr 3" by simp
  have z: "number_times (parseFloat ''-0'') (Finite 1) = NegZero"
    by (simp add: parseFloat_minus_0 number_times_def is_infinite_def is_zero_def
        signed_zero_def)
  have b: "fromInput ''-0'' (Finite 1) = Inr 0"
    using fromInput_nearest_ties_up[of "''-0''" "Finite 1", THEN conjunct2, THEN conjunct1] z
    by blast
  have n: "number_times (parseFloat []) (Finite 1) = NaN"
    by (simp add: parseFloat_empty)
  have c: "fromInput [] (Finite 1) = Inl RangeError"
    using fromInput_nearest_ties_up[of "[]" "Finite 1", THEN conjunct2, THEN conjunct2,
        THEN conjunct1] n
    by simp
  show ?thesis using t a z b n c by simp
qed

lemma not_decimal_examples: "\<not> parses_as_decimal []" "\<not> parses_as_decimal ''abc''"
  by (simp_all add: parses_as_decimal_def unsigned_part_def skip_examples is_digit_def)

theorem fromInput_throws_without_number_witness:
  "\<not> parses_as_decimal []
   \<and> fromInput [] (Finite (10 ^ 9)) = Inl RangeError
   \<and> \<not> parses_as_decimal ''abc''
   \<and> Math_round (number_times (parseFloat ''abc'') (Finite (10 ^ 9))) = NaN
   \<and> fromInput ''abc'' (Finite (10 ^ 9)) = Inl RangeError"
  using fromInput_throws_without_number[of "[]" "Finite (10 ^ 9)"]
    fromInput_throws_without_number[of "''abc''" "Finite (10 ^ 9)"]
    not_decimal_examples
  by blast

text \<open>
  Claim C9.  In accurate mode, for every balance and every coin type, the format options
  are a maximum of 20 fraction digits and nothing else: no notation is chosen (so not the
  compact one), and no forced value replaces the number.
\<close>

theorem accurate_mode_format:
  "maximumFractionDigits (formatOptions (getFormatData bal coinArgType accurate)) = Some 20
   \<and> notation' (formatOptions (getFormatData bal coinArgType accurate)) = None
   \<and> minimumFractionDigits (formatOptions (getFormatData bal coinArgType accurate)) = None
   \<and> forcedFormatValue (getFormatData bal coinArgType accurate) = None"
  by (simp add: getFormatData_def Let_def)

lemma bigint_less_denomination:
  "bigint_less_value bal (denomination_of c)
   = (if c = ''0x2::sui::SUI'' then bal < 10 ^ 9
      else if c \<in> set Object_prototype_names then False
      else bal < 1)"
proof -
  have "(rat_of_int bal < 10 ^ 9) = (bal < 10 ^ 9)"
    using of_int_less_iff[of bal "10 ^ 9", where ?'a = rat] by simp
  then show ?thesis
    by (simp add: denomination_of_eq bigint_less_number_def)
qed

text \<open>
  Claim C2, as the code has it.  In loose mode, for every balance \<open>B\<close> and every coin
  type string, with \<open>D\<close> what the table gives for the string or else 1: if \<open>B < D\<close>
  the maximum of fraction digits is 8 and no notation is set; otherwise it is 3 and the
  notation is compact.  When the value is smaller than \<open>1e-8\<close> the forced value is the
  string hyphen, space, hyphen (ASCII), and otherwise there is none.
  \<open>D\<close> is \<open>10^9\<close> for \<open>0x2::sui::SUI\<close>; for a name that the table inherits from
  \<open>Object.prototype\<close> it is the inherited member, which is not a number: then \<open>B < D\<close>
  is false, the value is \<open>NaN\<close> and there is no forced value; for any other string
  \<open>D\<close> is 1.  In the two cases where \<open>D\<close> is a number the value is the binary64
  quotient of the balance and \<open>D\<close>, and the comparison of the two binary64 values
  decides as the exact one does: the value is smaller than \<open>1e-8\<close> if and only if
  \<open>B / D < 1 / 10^8\<close>.
\<close>

theorem loose_mode_format:
  "(bigint_less_value bal (denomination_of coinArgType) \<longrightarrow>
       maximumFractionDigits (formatOptions (getFormatData bal coinArgType loose)) = Some 8
     \<and> notation' (formatOptions (getFormatData bal coinArgType loose)) = None)
   \<and> (\<not> bigint_less_value bal (denomination_of coinArgType) \<longrightarrow>
       maximumFractionDigits (formatOptions (getFormatData bal coinArgType loose)) = Some 3
     \<and> notation' (formatOptions (getFormatData bal coinArgType loose)) = Some compact)
   \<and> (number_less (value' (getFormatData bal coinArgType loose)) literal_1e_8 \<longrightarrow>
       forcedFormatValue (getFormatData bal coinArgType loose) = Some ''- -'')
   \<and> (\<not> number_less (value' (getFormatData bal coinArgType loose)) literal_1e_8 \<longrightarrow>
       forcedFormatValue (getFormatData bal coinArgType loose) = None)
   \<and> denomination_of coinArgType =
       (if coinArgType = ''0x2::sui::SUI'' then NumberValue (Finite (10 ^ 9))
        else if coinArgType \<in> set Object_prototype_names then InheritedMember
        else NumberValue (Finite 1))
   \<and> bigint_less_value bal (denomination_of coinArgType) =
       (if coinArgType = ''0x2::sui::SUI'' then bal < 10 ^ 9
        else if coinArgType \<in> set Object_prototype_names then False
        else bal < 1)
   \<and> value' (getFormatData bal coinArgType loose) =
       (if coinArgType \<in> set Object_prototype_names then NaN
        else number_divide (Number_of_bigint bal)
               (Finite (if coinArgType = ''0x2::sui::SUI'' then 10 ^ 9 else 1)))
   \<and> number_less (value' (getFormatData bal coinArgType loose)) literal_1e_8 =
       (coinArgType \<notin> set Object_prototype_names
        \<and> rat_of_int bal / (if coinArgType = ''0x2::sui::SUI'' then 10 ^ 9 else 1)
            < 1 / 10 ^ 8)"
proof (intro conjI)
  show "bigint_less_value bal (denomination_of coinArgType) \<longrightarrow>
       maximumFractionDigits (formatOptions (getFormatData bal coinArgType loose)) = Some 8
     \<and> notation' (formatOptions (getFormatData bal coinArgType loose)) = None"
    by (simp add: getFormatData_def Let_def)
  show "\<not> bigint_less_value bal (denomination_of coinArgType) \<longrightarrow>
       maximumFractionDigits (formatOptions (getFormatData bal coinArgType loose)) = Some 3
     \<and> notation' (formatOptions (getFormatData bal coinArgType loose)) = Some compact"
    by (simp add: getFormatData_def Let_def)
  show "number_less (value' (getFormatData bal coinArgType loose)) literal_1e_8 \<longrightarrow>
       forcedFormatValue (getFormatData bal coinArgType loose) = Some ''- -''"
    by (simp add: getFormatData_def Let_def)
  show "\<not> number_less (value' (getFormatData bal coinArgType loose)) literal_1e_8 \<longrightarrow>
       forcedFormatValue (getFormatData bal coinArgType loose) = None"
    by (simp add: getFormatData_def Let_def)
  show "denomination_of coinArgType =
       (if coinArgType = ''0x2::sui::SUI'' then NumberValue (Finite (10 ^ 9))
        else if coinArgType \<in> set Object_prototype_names then InheritedMember
        else NumberValue (Finite 1))"
    by (rule denomination_of_eq)
  show "bigint_less_value bal (denomination_of coinArgType) =
       (if coinArgType = ''0x2::sui::SUI'' then bal < 10 ^ 9
        else if coinArgType \<in> set Object_prototype_names then False
        else bal < 1)"
    by (rule bigint_less_denomination)
  show "value' (getFormatData bal coinArgType loose) =
       (if coinArgType \<in> set Object_prototype_names then NaN
        else number_divide (Number_of_bigint bal)
               (Finite (if coinArgType = ''0x2::sui::SUI'' then 10 ^ 9 else 1)))"
    using placeholder_inherited(1)[of coinArgType bal]
    by (simp add: getFormatData_value denomination_of_number)
  show "number_less (value' (getFormatData bal coinArgType loose)) literal_1e_8 =
       (coinArgType \<notin> set Object_prototype_names
        \<and> rat_of_int bal / (if coinArgType = ''0x2::sui::SUI'' then 10 ^ 9 else 1)
            < 1 / 10 ^ 8)"
    by (rule placeholder_exact)
qed

lemma value_5e8_sui:
  "value' (getFormatData 500000000 ''0x2::sui::SUI'' loose) = Finite (1 / 2)"
  using binary64_half
  by (simp add: getFormatData_value denomination_of_eq Number_of_bigint_def binary64_5e8
      number_divide_def is_infinite_def is_zero_def)

lemma value_5e8_pkg:
  "value' (getFormatData 500000000 ''pkg::sui::SUI'' loose) = Finite 500000000"
  by (simp add: getFormatData_value denomination_of_eq not_inherited_examples
      Number_of_bigint_def binary64_5e8 number_divide_def is_infinite_def is_zero_def)

lemma symbol_examples:
  "getCoinSymbol ''0x2::sui::SUI'' = ''SUI''" "getCoinSymbol ''pkg::sui::SUI'' = ''SUI''"
  by (simp_all add: getCoinSymbol_def lastIndexOf_def substring_def)

theorem loose_mode_format_witness:
  "bigint_less_value 5 (denomination_of ''0x2::sui::SUI'')
   \<and> maximumFractionDigits (formatOptions (getFormatData 5 ''0x2::sui::SUI'' loose)) = Some 8
   \<and> notation' (formatOptions (getFormatData 5 ''0x2::sui::SUI'' loose)) = None
   \<and> number_less (value' (getFormatData 5 ''0x2::sui::SUI'' loose)) literal_1e_8
   \<and> forcedFormatValue (getFormatData 5 ''0x2::sui::SUI'' loose) = Some ''- -''
   \<and> \<not> bigint_less_value 0 (denomination_of ''toString'')
   \<and> maximumFractionDigits (formatOptions (getFormatData 0 ''toString'' loose)) = Some 3
   \<and> notation' (formatOptions (getFormatData 0 ''toString'' loose)) = Some compact
   \<and> value' (getFormatData 0 ''toString'' loose) = NaN
   \<and> \<not> number_less (value' (getFormatData 0 ''toString'' loose)) literal_1e_8
   \<and> forcedFormatValue (getFormatData 0 ''toString'' loose) = None"
proof -
  note A = loose_mode_format[of 5 "''0x2::sui::SUI''"]
  note B = loose_mode_format[of 0 "''toString''"]
  have a: "bigint_less_value 5 (denomination_of ''0x2::sui::SUI'')"
    by (simp add: bigint_less_denomination)
  have b: "\<not> bigint_less_value 0 (denomination_of ''toString'')"
    by (simp add: bigint_less_denomination not_inherited_examples)
  have l: "number_less (value' (getFormatData 5 ''0x2::sui::SUI'' loose)) literal_1e_8"
    by (simp add: value_5_sui literal_1e_8_def binary64_1e_8[simplified] number_less_def)
  have v: "value' (getFormatData 0 ''toString'' loose) = NaN"
    using B[THEN conjunct2, THEN conjunct2, THEN conjunct2, THEN conjunct2, THEN conjunct2,
        THEN conjunct2, THEN conjunct1]
    by (simp add: not_inherited_examples)
  then have g: "\<not> number_less (value' (getFormatData 0 ''toString'' loose)) literal_1e_8"
    by (simp add: number_less_def)
  from A[THEN conjunct1, rule_format, OF a]
    A[THEN conjunct2, THEN conjunct2, THEN conjunct1, rule_format, OF l]
    B[THEN conjunct2, THEN conjunct1, rule_format, OF b]
    B[THEN conjunct2, THEN conjunct2, THEN conjunct2, THEN conjunct1, rule_format, OF g]
    a b l v g
  show ?thesis by simp
qed

text \<open>
  Claim C3, as the code has it.  The key of the denomination table is \<open>0x2::sui::SUI\<close>:
  for it, a balance of 500000000 in loose mode gives the value 0.5, a maximum of 8
  fraction digits and the symbol \<open>SUI\<close>.  The string \<open>pkg::sui::SUI\<close> is not a key,
  its denomination is 1: the value is 500000000, with at most 3 fraction digits in
  compact notation, and the symbol is \<open>SUI\<close> as well.
\<close>

theorem sui_half_unit:
  "getFormatData 500000000 ''0x2::sui::SUI'' loose
     = \<lparr>value' = Finite (1 / 2), symbol = ''SUI'',
        formatOptions = \<lparr>notation' = None, minimumFractionDigits = None,
                          maximumFractionDigits = Some 8\<rparr>,
        forcedFormatValue = None\<rparr>
   \<and> getFormatData 500000000 ''pkg::sui::SUI'' loose
     = \<lparr>value' = Finite 500000000, symbol = ''SUI'',
        formatOptions = \<lparr>notation' = Some compact, minimumFractionDigits = None,
                          maximumFractionDigits = Some 3\<rparr>,
        forcedFormatValue = None\<rparr>"
proof -
  have v1: "number_divide (Number_of_bigint 500000000)
              (ToNumber (denomination_of ''0x2::sui::SUI'')) = Finite (1 / 2)"
    using value_5e8_sui by (simp add: getFormatData_value)
  have v2: "number_divide (Number_of_bigint 500000000)
              (ToNumber (denomination_of ''pkg::sui::SUI'')) = Finite 500000000"
    using value_5e8_pkg by (simp add: getFormatData_value)
  have l1: "\<not> number_less (Finite (1 / 2)) literal_1e_8"
    by (simp add: literal_1e_8_def binary64_1e_8[simplified] number_less_def)
  have l2: "\<not> number_less (Finite 500000000) literal_1e_8"
    by (simp add: literal_1e_8_def binary64_1e_8[simplified] number_less_def)
  have b1: "bigint_less_value 500000000 (denomination_of ''0x2::sui::SUI'')"
    by (simp add: bigint_less_denomination)
  have b2: "\<not> bigint_less_value 500000000 (denomination_of ''pkg::sui::SUI'')"
    by (simp add: bigint_less_denomination not_inherited_examples)
  show ?thesis
    by (simp add: getFormatData_def Let_def v1 v2 l1 l2 b1 b2 symbol_examples)
qed

text \<open>
  The output the specification states for Claim C3 is not the one of \<open>pkg::sui::SUI\<close>.
\<close>

theorem pkg_sui_is_not_in_the_table:
  "COIN_DENOMINATIONS ''pkg::sui::SUI'' = None
   \<and> value' (getFormatData 500000000 ''pkg::sui::SUI'' loose) = Finite 500000000
   \<and> value' (getFormatData 500000000 ''pkg::sui::SUI'' loose) \<noteq> Finite (1 / 2)
   \<and> maximumFractionDigits (formatOptions (getFormatData 500000000 ''pkg::sui::SUI'' loose))
       = Some 3
   \<and> maximumFractionDigits (formatOptions (getFormatData 500000000 ''pkg::sui::SUI'' loose))
       \<noteq> Some 8"
proof -
  have b2: "\<not> bigint_less_value 500000000 (denomination_of ''pkg::sui::SUI'')"
    by (simp add: bigint_less_denomination not_inherited_examples)
  then have "maximumFractionDigits (formatOptions (getFormatData 500000000 ''pkg::sui::SUI'' loose))
       = Some 3"
    by (simp add: getFormatData_def Let_def)
  then show ?thesis
    by (simp add: value_5e8_pkg COIN_DENOMINATIONS_def not_inherited_examples)
qed

section \<open>Properties of deduplicate\<close>

lemma indexOf_from_first_pos:
  "indexOf_from xs v k = (if v \<in> set xs then k + int (first_pos xs v) else -1)"
  by (induction xs arbitrary: k) (auto simp: first_pos_def)

lemma indexOf_first_pos:
  "indexOf xs v = (if v \<in> set xs then int (first_pos xs v) else -1)"
  by (simp add: indexOf_def indexOf_from_first_pos)

lemma first_pos_lt: "v \<in> set xs \<Longrightarrow> first_pos xs v < length xs"
  unfolding first_pos_def
  by (induction xs) auto

lemma nth_first_pos: "v \<in> set xs \<Longrightarrow> xs ! first_pos xs v = v"
  unfolding first_pos_def
  by (induction xs) auto

text \<open>The callback keeps exactly the positions that are a first occurrence.\<close>

lemma filter_indexed_first_pos:
  "filter_indexed (\<lambda>v index self. indexOf self v = int index) ds
   = map fst (filter (\<lambda>(v, i). first_pos ds v = i) (zip ds [0..<length ds]))"
  unfolding filter_indexed_def
  apply (rule arg_cong[where f="map fst"])
  apply (rule filter_cong)
   apply simp
  apply (auto simp: indexOf_first_pos set_zip)
  done

lemma set_firsts: "fst ` set (firsts ds) = set ds"
proof
  show "fst ` set (firsts ds) \<subseteq> set ds"
    by (auto simp: firsts_def dest: set_zip_leftD)
  show "set ds \<subseteq> fst ` set (firsts ds)"
  proof
    fix v assume v: "v \<in> set ds"
    then have "(v, first_pos ds v) \<in> set (zip ds [0..<length ds])"
      using first_pos_lt[OF v] nth_first_pos[OF v]
      by (auto simp: set_zip intro!: exI[of _ "first_pos ds v"])
    then have "(v, first_pos ds v) \<in> set (firsts ds)"
      by (simp add: firsts_def)
    then show "v \<in> fst ` set (firsts ds)"
      by force
  qed
qed

lemma sorted_firsts:
  "sorted_wrt (\<lambda>a b. first_pos ds a < first_pos ds b) (map fst (firsts ds))"
proof -
  have "sorted_wrt (<) (map snd (zip ds [0..<length ds]))"
    by simp
  then have "sorted_wrt (\<lambda>a b. snd a < snd b) (zip ds [0..<length ds])"
    by (simp only: sorted_wrt_map)
  then have "sorted_wrt (\<lambda>a b. snd a < snd b) (firsts ds)"
    unfolding firsts_def by (rule sorted_wrt_filter)
  then have "sorted_wrt (\<lambda>a b. first_pos ds (fst a) < first_pos ds (fst b)) (firsts ds)"
    by (rule sorted_wrt_mono_rel[rotated]) (auto simp: firsts_def)
  then show ?thesis
    by (simp add: sorted_wrt_map)
qed

lemma sorted_wrt_irrefl_distinct:
  "sorted_wrt R xs \<Longrightarrow> (\<And>x. \<not> R x x) \<Longrightarrow> distinct xs"
  by (induction xs) auto

lemma distinct_firsts: "distinct (map fst (firsts ds))"
  using sorted_firsts[of ds] by (rule sorted_wrt_irrefl_distinct) simp

lemma deduplicate_Some: "deduplicate (Some refs) = map fst (firsts (map snd refs))"
  by (simp add: deduplicate_def filter_indexed_first_pos firsts_def)

text \<open>
  Claim C5.  For every reference list, the output of \<open>deduplicate\<close> holds each digest of
  the input exactly once (it has no duplicates and the same set of digests), its digests
  stand in the order of their first occurrence in the input, and it is no longer than the
  input; without a list the result is empty.  The function is a value of its argument alone.
\<close>

theorem deduplicate_first_occurrences:
  "distinct (deduplicate (Some refs))
   \<and> set (deduplicate (Some refs)) = snd ` set refs
   \<and> sorted_wrt (\<lambda>a b. first_pos (map snd refs) a < first_pos (map snd refs) b)
        (deduplicate (Some refs))
   \<and> length (deduplicate (Some refs)) \<le> length refs
   \<and> deduplicate None = []"
proof -
  have "set (map fst (firsts (map snd refs))) = snd ` set refs"
    using set_firsts[of "map snd refs"] by simp
  moreover have "length (map fst (firsts (map snd refs))) \<le> length refs"
    using length_filter_le[of _ "zip (map snd refs) [0..<length refs]"]
    by (simp add: firsts_def)
  ultimately show ?thesis
    using distinct_firsts[of "map snd refs"] sorted_firsts[of "map snd refs"]
    by (simp add: deduplicate_Some) (simp add: deduplicate_def)
qed

section \<open>The state machine of the slice\<close>

lemma observe_snoc: "observe (acts @ [a]) = txSlice_reducer (observe acts) a"
  by (simp add: observe_def)

lemma observe_cleared:
  "(loading (observe acts) \<or> error (observe acts) \<noteq> None)
   \<longrightarrow> latestTx (observe acts) = [] \<and> recentAddresses (observe acts) = []"
proof (induction acts rule: rev_induct)
  case Nil
  show ?case by (simp add: observe_def initialState_def)
next
  case (snoc a acts)
  show ?case
  proof (cases a)
    case (fulfilled payload)
    then show ?thesis by (simp add: observe_snoc)
  next
    case pending
    then show ?thesis by (simp add: observe_snoc)
  next
    case (rejected e)
    then show ?thesis by (simp add: observe_snoc)
  qed
qed

text \<open>
  Claim C1, as the code has it.  In every state reachable from the initial state by any
  sequence of pending, fulfilled and rejected actions: while \<open>loading\<close> is true the entry
  list and the recent addresses are empty; while an error is recorded they are empty too;
  so a populated entry list (with no error) excludes both loading and a recorded error.
  A pending action sets \<open>loading\<close> and clears the entry list and the recent addresses, and
  leaves \<open>error\<close> as it was: an error of an earlier rejected cycle stays until the next
  fulfilled or rejected action.
\<close>

theorem reachable_state_phases:
  "(loading (observe acts) \<longrightarrow>
      latestTx (observe acts) = [] \<and> recentAddresses (observe acts) = [])
   \<and> (error (observe acts) \<noteq> None \<longrightarrow>
      latestTx (observe acts) = [] \<and> recentAddresses (observe acts) = [])
   \<and> (phase_loaded (observe acts) \<longrightarrow>
      \<not> phase_loading (observe acts) \<and> \<not> phase_failed (observe acts))
   \<and> txSlice_reducer (observe acts) pending =
      (observe acts)\<lparr>loading := True, latestTx := [], recentAddresses := []\<rparr>
   \<and> error (observe (acts @ [pending])) = error (observe acts)"
  using observe_cleared[of acts]
  by (auto simp: phase_loaded_def phase_loading_def phase_failed_def observe_snoc)

theorem reachable_state_phases_witness:
  "loading (observe [pending, rejected \<lparr>code = None, message = Some ''timeout'', name' = Some ''Error''\<rparr>, pending])
   \<and> error (observe [pending, rejected \<lparr>code = None, message = Some ''timeout'', name' = Some ''Error''\<rparr>, pending]) \<noteq> None
   \<and> latestTx (observe [pending, rejected \<lparr>code = None, message = Some ''timeout'', name' = Some ''Error''\<rparr>, pending]) = []
   \<and> recentAddresses (observe [pending, rejected \<lparr>code = None, message = Some ''timeout'', name' = Some ''Error''\<rparr>, pending]) = []"
proof -
  let ?acts = "[pending, rejected \<lparr>code = None, message = Some ''timeout'', name' = Some ''Error''\<rparr>, pending]"
  have l: "loading (observe ?acts)"
    by (simp add: observe_def initialState_def)
  have e: "error (observe ?acts) \<noteq> None"
    by (simp add: observe_def initialState_def)
  from reachable_state_phases[of ?acts] l e show ?thesis
    by blast
qed

text \<open>
  The claim as the specification states it fails: after a rejected cycle, the pending
  action of the next cycle leaves the error in place, so \<open>loading\<close> is true while the
  error of the cycle before is still recorded, and two of the three phases hold.
\<close>

theorem stale_error_while_loading:
  "loading (observe [pending, rejected \<lparr>code = None, message = Some ''timeout'', name' = Some ''Error''\<rparr>, pending])
   \<and> error (observe [pending, rejected \<lparr>code = None, message = Some ''timeout'', name' = Some ''Error''\<rparr>, pending])
       = Some \<lparr>code = None, message = Some ''timeout'', name' = Some ''Error''\<rparr>
   \<and> \<not> exactly_one_phase
         (observe [pending, rejected \<lparr>code = None, message = Some ''timeout'', name' = Some ''Error''\<rparr>, pending])"
  by (simp add: observe_def initialState_def exactly_one_phase_def phase_loading_def
      phase_loaded_def phase_failed_def)

section \<open>The thunk: classification, sort and merge\<close>

subsection \<open>The merge of one entry\<close>

lemma find_object_None:
  "objectId itm = None \<or> objectId itm = Some [] \<or> txObjects = None
   \<or> (\<exists>objs. txObjects = Some objs \<and> (\<forall>obj\<in>set objs. Some (reference_objectId obj) \<noteq> objectId itm))
   \<Longrightarrow> find_object txObjects itm = None"
  by (auto simp: find_object_def find_None_iff split: option.splits)

lemma find_object_Some:
  "txObjects = Some objs \<Longrightarrow> objectId itm = Some oid \<Longrightarrow> oid \<noteq> [] \<Longrightarrow>
   find (\<lambda>obj. reference_objectId obj = oid) objs = Some obj \<Longrightarrow>
   find_object txObjects itm = Some obj"
  by (simp add: find_object_def)

lemma enrich_unmatched:
  "find_object txObjects itm = None \<Longrightarrow> enrich extra txObjects itm = Inr itm"
  by (simp add: enrich_def)

lemma enrich_frame:
  "enrich extra txObjects itm = Inr out \<Longrightarrow>
   out\<lparr>description := description itm, name := name itm, url := url itm,
       balance := balance itm, coinSymbol := coinSymbol itm\<rparr> = itm"
  by (auto simp: enrich_def split: option.splits)

lemma enrich_matched:
  assumes "find_object txObjects itm = Some obj" and "enrich extra txObjects itm = Inr out"
  shows "\<exists>fs. data_fields (data obj) = Some fs
           \<and> description out = fields_description fs
           \<and> name out = fields_name fs
           \<and> url out = fields_url fs
           \<and> balance out = fields_balance fs
           \<and> coinSymbol out = coinSymbol_of extra obj"
  using assms by (auto simp: enrich_def split: option.splits)

lemma enrich_throws_iff:
  "enrich extra txObjects itm = Inl err \<longleftrightarrow>
     err = TypeError no_fields
     \<and> (\<exists>obj. find_object txObjects itm = Some obj \<and> data_fields (data obj) = None)"
  by (auto simp: enrich_def split: option.splits)

lemma seq_enrich: "enrich extra objs itm = Inr out \<Longrightarrow> seq out = seq itm"
  by (auto simp: enrich_def split: option.splits)

lemma txId_enrich: "enrich extra objs itm = Inr out \<Longrightarrow> txId out = txId itm"
  by (auto simp: enrich_def split: option.splits)

subsection \<open>A callback that may throw, mapped over a list\<close>

lemma map_throwing_append:
  "map_throwing f (xs @ ys) =
     (case map_throwing f xs of
        Inl e \<Rightarrow> Inl e
      | Inr as \<Rightarrow> (case map_throwing f ys of Inl e \<Rightarrow> Inl e | Inr bs \<Rightarrow> Inr (as @ bs)))"
  by (induction xs) (auto split: sum.splits)

lemma map_throwing_Inr:
  "map_throwing f xs = Inr ys \<Longrightarrow>
   length ys = length xs \<and> (\<forall>i<length xs. f (xs ! i) = Inr (ys ! i))"
proof (induction xs arbitrary: ys)
  case Nil
  then show ?case by simp
next
  case (Cons x xs)
  from Cons.prems obtain y rest where y: "f x = Inr y"
    and rest: "map_throwing f xs = Inr rest" and ys: "ys = y # rest"
    by (auto split: sum.splits)
  from Cons.IH[OF rest] y ys show ?case
    by (auto simp: nth_Cons split: nat.splits)
qed

lemma map_throwing_Inl:
  "map_throwing f xs = Inl e \<Longrightarrow> \<exists>x\<in>set xs. f x = Inl e"
  by (induction xs) (auto split: sum.splits)

lemma map_throwing_preserves:
  assumes "map_throwing f xs = Inr ys" and "\<And>x y. f x = Inr y \<Longrightarrow> g y = g x"
  shows "map g ys = map g xs"
proof (rule nth_equalityI)
  from map_throwing_Inr[OF assms(1)] show "length (map g ys) = length (map g xs)" by simp
next
  fix i assume "i < length (map g ys)"
  with map_throwing_Inr[OF assms(1)] have i: "i < length xs" "f (xs ! i) = Inr (ys ! i)"
    "i < length ys" by simp_all
  with assms(2) show "map g ys ! i = map g xs ! i" by simp
qed

subsection \<open>The merge of the list\<close>

text \<open>
  When the merge returns, it returns one entry for each entry it is given, in the same
  order.  An entry without \<open>objectId\<close>, or with no object of that id in the batch (or no
  batch at all), comes back unchanged in every field.  For every entry, all fields other
  than \<open>description\<close>, \<open>name\<close>, \<open>url\<close>, \<open>balance\<close> and \<open>coinSymbol\<close> are unchanged;
  for an entry whose (non-empty) \<open>objectId\<close> is found, these five are those of the first
  object with that id.
\<close>

lemma enrich_all_frame:
  assumes "enrich_all extra resp = Inr out"
  shows "length out = length resp
   \<and> (\<forall>i<length resp.
        (objectId (resp ! i) = None \<longrightarrow> out ! i = resp ! i)
      \<and> (fetched_objects extra resp = None \<longrightarrow> out ! i = resp ! i)
      \<and> (\<forall>objs. fetched_objects extra resp = Some objs
                \<and> (\<forall>obj\<in>set objs. Some (reference_objectId obj) \<noteq> objectId (resp ! i))
             \<longrightarrow> out ! i = resp ! i)
      \<and> (out ! i)
           \<lparr>description := description (resp ! i), name := name (resp ! i),
            url := url (resp ! i), balance := balance (resp ! i),
            coinSymbol := coinSymbol (resp ! i)\<rparr> = resp ! i
      \<and> (\<forall>objs oid obj. fetched_objects extra resp = Some objs
                \<and> objectId (resp ! i) = Some oid \<and> oid \<noteq> []
                \<and> find (\<lambda>obj. reference_objectId obj = oid) objs = Some obj
             \<longrightarrow> (\<exists>fs. data_fields (data obj) = Some fs
                   \<and> description (out ! i) = fields_description fs
                   \<and> name (out ! i) = fields_name fs
                   \<and> url (out ! i) = fields_url fs
                   \<and> balance (out ! i) = fields_balance fs
                   \<and> coinSymbol (out ! i) = coinSymbol_of extra obj)))"
proof (intro conjI allI impI)
  let ?objs = "fetched_objects extra resp"
  from assms have m: "map_throwing (enrich extra ?objs) resp = Inr out"
    by (simp add: enrich_all_def)
  from map_throwing_Inr[OF m] show "length out = length resp" by simp
  fix i assume i: "i < length resp"
  with map_throwing_Inr[OF m] have nth: "enrich extra ?objs (resp ! i) = Inr (out ! i)"
    by simp
  show "out ! i = resp ! i" if "objectId (resp ! i) = None"
  proof -
    from that have "find_object ?objs (resp ! i) = None"
      by (intro find_object_None) simp
    from enrich_unmatched[OF this, of extra] nth show ?thesis by simp
  qed
  show "out ! i = resp ! i" if "?objs = None"
  proof -
    from that have "find_object ?objs (resp ! i) = None"
      by (intro find_object_None) simp
    from enrich_unmatched[OF this, of extra] nth show ?thesis by simp
  qed
  show "out ! i = resp ! i"
    if "?objs = Some objs
        \<and> (\<forall>obj\<in>set objs. Some (reference_objectId obj) \<noteq> objectId (resp ! i))" for objs
  proof -
    from that have "find_object ?objs (resp ! i) = None"
      by (intro find_object_None) simp
    from enrich_unmatched[OF this, of extra] nth show ?thesis by simp
  qed
  show "(out ! i)
           \<lparr>description := description (resp ! i), name := name (resp ! i),
            url := url (resp ! i), balance := balance (resp ! i),
            coinSymbol := coinSymbol (resp ! i)\<rparr> = resp ! i"
    using nth by (rule enrich_frame)
  fix objs oid obj
  assume "?objs = Some objs \<and> objectId (resp ! i) = Some oid \<and> oid \<noteq> []
        \<and> find (\<lambda>obj. reference_objectId obj = oid) objs = Some obj"
  then have f: "find_object ?objs (resp ! i) = Some obj"
    by (intro find_object_Some[of _ objs _ oid]) simp_all
  from enrich_matched[OF f nth]
  show "\<exists>fs. data_fields (data obj) = Some fs
                   \<and> description (out ! i) = fields_description fs
                   \<and> name (out ! i) = fields_name fs
                   \<and> url (out ! i) = fields_url fs
                   \<and> balance (out ! i) = fields_balance fs
                   \<and> coinSymbol (out ! i) = coinSymbol_of extra obj" .
qed

text \<open>
  The merge raises exactly when some entry finds an object without \<open>fields\<close>; then no
  list is returned at all.
\<close>

lemma enrich_all_throws_iff:
  "(\<exists>err. enrich_all extra resp = Inl err) \<longleftrightarrow>
     (\<exists>itm\<in>set resp. \<exists>obj. find_object (fetched_objects extra resp) itm = Some obj
                             \<and> data_fields (data obj) = None)"
proof
  assume "\<exists>err. enrich_all extra resp = Inl err"
  then obtain err where "map_throwing (enrich extra (fetched_objects extra resp)) resp = Inl err"
    by (auto simp: enrich_all_def)
  from map_throwing_Inl[OF this] show "\<exists>itm\<in>set resp. \<exists>obj.
      find_object (fetched_objects extra resp) itm = Some obj \<and> data_fields (data obj) = None"
    by (auto simp: enrich_throws_iff)
next
  assume "\<exists>itm\<in>set resp. \<exists>obj. find_object (fetched_objects extra resp) itm = Some obj
                             \<and> data_fields (data obj) = None"
  then obtain itm where itm: "itm \<in> set resp"
    and t: "enrich extra (fetched_objects extra resp) itm = Inl (TypeError no_fields)"
    by (auto simp: enrich_throws_iff)
  show "\<exists>err. enrich_all extra resp = Inl err"
  proof (cases "enrich_all extra resp")
    case (Inl err)
    then show ?thesis by simp
  next
    case (Inr out)
    then have m: "map_throwing (enrich extra (fetched_objects extra resp)) resp = Inr out"
      by (simp add: enrich_all_def)
    from itm obtain i where "i < length resp" "resp ! i = itm"
      by (auto simp: in_set_conv_nth)
    with map_throwing_Inr[OF m] t show ?thesis by auto
  qed
qed

lemma enrich_all_seq: "enrich_all extra resp = Inr out \<Longrightarrow> map seq out = map seq resp"
  unfolding enrich_all_def Let_def by (erule map_throwing_preserves) (rule seq_enrich)

lemma enrich_all_txId: "enrich_all extra resp = Inr out \<Longrightarrow> map txId out = map txId resp"
  unfolding enrich_all_def Let_def by (erule map_throwing_preserves) (rule txId_enrich)

subsection \<open>Classification and sort\<close>

lemma notEmpty_filter_append:
  "notEmpty_filter (xs @ ys) = notEmpty_filter xs @ notEmpty_filter ys"
  by (simp add: notEmpty_filter_def map_filter_def)

lemma notEmpty_filter_simps:
  "notEmpty_filter [] = []"
  "notEmpty_filter (None # xs) = notEmpty_filter xs"
  "notEmpty_filter (Some x # xs) = x # notEmpty_filter xs"
  by (simp_all add: notEmpty_filter_def map_filter_def)

lemma classify_multi:
  assumes "length (transactions e) > 1" and "transactionDigest e \<in> snd ` set refs"
  shows "classify a refs e = Inr None"
proof -
  from assms(2) have "filter (\<lambda>r. snd r = transactionDigest e) refs \<noteq> []"
    by (force simp: filter_empty_conv)
  then obtain s d rest where "filter (\<lambda>r. snd r = transactionDigest e) refs = (s, d) # rest"
    by (cases "filter (\<lambda>r. snd r = transactionDigest e) refs") auto
  with assms(1) show ?thesis
    by (simp add: classify_def)
qed

lemma reconcile_multi:
  assumes "length (transactions e) > 1" and "transactionDigest e \<in> snd ` set refs"
  shows "reconcile a refs (pre @ e # post) = reconcile a refs (pre @ post)"
  using classify_multi[OF assms, of a]
  by (auto simp: reconcile_def map_throwing_append notEmpty_filter_append notEmpty_filter_simps
      split: sum.splits)

lemma classify_Some:
  assumes "classify a refs e = Inr (Some entry)"
  shows "txId entry = transactionDigest e \<and> (seq entry, txId entry) \<in> set refs"
proof (cases "filter (\<lambda>r. snd r = transactionDigest e) refs")
  case Nil
  with assms show ?thesis by (simp add: classify_def)
next
  case (Cons r rest)
  then have "r \<in> set (filter (\<lambda>r. snd r = transactionDigest e) refs)" by simp
  then have r: "r \<in> set refs" "snd r = transactionDigest e" by auto
  obtain s d where sd: "r = (s, d)" by (cases r)
  from assms Cons sd have "seq entry = s \<and> txId entry = d"
    by (auto simp: classify_def build_entry_def Let_def split: if_splits list.splits)
  with r sd show ?thesis by auto
qed

lemma classified_entries:
  "map_throwing (classify a refs) txEffs = Inr results \<Longrightarrow>
     txId ` set (notEmpty_filter results) \<subseteq> transactionDigest ` set txEffs
     \<and> (distinct (map transactionDigest txEffs) \<longrightarrow> distinct (map txId (notEmpty_filter results)))
     \<and> (\<forall>entry\<in>set (notEmpty_filter results). (seq entry, txId entry) \<in> set refs)"
proof (induction txEffs arbitrary: results)
  case Nil
  then show ?case by (simp add: notEmpty_filter_simps)
next
  case (Cons e txEffs)
  from Cons.prems obtain r rs where r: "classify a refs e = Inr r"
    and rs: "map_throwing (classify a refs) txEffs = Inr rs" and res: "results = r # rs"
    by (auto split: sum.splits)
  note IH = Cons.IH[OF rs]
  show ?case
  proof (cases r)
    case None
    with IH res show ?thesis
      by (auto simp: notEmpty_filter_simps)
  next
    case (Some entry)
    with r have "txId entry = transactionDigest e \<and> (seq entry, txId entry) \<in> set refs"
      using classify_Some by blast
    with IH res Some show ?thesis
      by (auto simp: notEmpty_filter_simps)
  qed
qed

lemma set_sort_insert: "set (sort_insert cmp x ys) = insert x (set ys)"
  by (induction ys) auto

lemma set_Array_sort: "set (Array_sort cmp xs) = set xs"
  by (induction xs) (auto simp: Array_sort_def set_sort_insert)

lemma distinct_map_sort_insert:
  "distinct (map f (sort_insert cmp x ys)) = (f x \<notin> f ` set ys \<and> distinct (map f ys))"
  by (induction ys) (auto simp: set_sort_insert)

lemma distinct_map_Array_sort:
  "distinct (map f (Array_sort cmp xs)) = distinct (map f xs)"
  by (induction xs) (auto simp: Array_sort_def distinct_map_sort_insert set_Array_sort[unfolded Array_sort_def])

lemma sorted_sort_insert:
  "sorted_wrt (\<lambda>x y. seq x \<ge> seq y) ys \<Longrightarrow>
   sorted_wrt (\<lambda>x y. seq x \<ge> seq y) (sort_insert (\<lambda>a b. seq b - seq a) x ys)"
  by (induction ys) (auto simp: set_sort_insert)

lemma sorted_Array_sort:
  "sorted_wrt (\<lambda>x y. seq x \<ge> seq y) (Array_sort (\<lambda>a b. seq b - seq a) xs)"
  by (induction xs) (auto simp: Array_sort_def sorted_sort_insert)

lemma sorted_wrt_strict:
  "sorted_wrt (\<lambda>x y. (f x :: int) \<ge> f y) xs \<Longrightarrow> distinct (map f xs) \<Longrightarrow>
   sorted_wrt (\<lambda>x y. f x > f y) xs"
proof (induction xs)
  case Nil
  then show ?case by simp
next
  case (Cons a xs)
  then have "\<forall>x\<in>set xs. f x \<le> f a" and "f a \<notin> f ` set xs"
    by auto
  then have "\<forall>x\<in>set xs. f x \<le> f a" and "\<forall>x\<in>set xs. f x \<noteq> f a"
    by (simp, metis imageI)
  then have "\<forall>x\<in>set xs. f x < f a"
    by (simp add: order_less_le)
  with Cons show ?case by simp
qed

lemma reconcile_sorted:
  assumes "reconcile a refs txEffs = Inr resp"
    and "sequence_numbers_unique refs"
    and "distinct (map transactionDigest txEffs)"
  shows "sorted_wrt (\<lambda>x y. seq x > seq y) resp \<and> distinct (map txId resp)"
proof -
  from assms(1) obtain results where
    res: "map_throwing (classify a refs) txEffs = Inr results"
    and resp: "resp = Array_sort (\<lambda>a b. seq b - seq a) (notEmpty_filter results)"
    by (auto simp: reconcile_def split: sum.splits)
  let ?es = "notEmpty_filter results"
  from classified_entries[OF res] assms(3)
  have dt: "distinct (map txId ?es)"
    and mem: "\<forall>entry\<in>set ?es. (seq entry, txId entry) \<in> set refs"
    by simp_all
  have inj: "inj_on seq (set ?es)"
  proof (rule inj_onI)
    fix x y assume x: "x \<in> set ?es" and y: "y \<in> set ?es" and eq: "seq x = seq y"
    from mem x y have "(seq x, txId x) \<in> set refs" "(seq y, txId y) \<in> set refs" by auto
    with assms(2) eq have "txId x = txId y"
      unfolding sequence_numbers_unique_def by fastforce
    with dt x y show "x = y"
      by (meson distinct_map inj_onD)
  qed
  from dt have "distinct ?es" by (simp add: distinct_map)
  with inj have ds: "distinct (map seq ?es)" by (simp add: distinct_map)
  have "sorted_wrt (\<lambda>x y. seq x > seq y) resp"
    unfolding resp
    by (rule sorted_wrt_strict) (simp_all add: sorted_Array_sort distinct_map_Array_sort ds)
  moreover have "distinct (map txId resp)"
    unfolding resp by (simp add: distinct_map_Array_sort dt)
  ultimately show ?thesis by simp
qed



lemma reconcile_digests:
  assumes "reconcile a refs txEffs = Inr resp"
  shows "txId ` set resp \<subseteq> transactionDigest ` set txEffs"
proof -
  from assms obtain results where
    res: "map_throwing (classify a refs) txEffs = Inr results"
    and resp: "resp = Array_sort (\<lambda>a b. seq b - seq a) (notEmpty_filter results)"
    by (auto simp: reconcile_def split: sum.splits)
  from classified_entries[OF res] show ?thesis
    by (simp add: resp set_Array_sort)
qed

subsection \<open>The stages of the thunk\<close>

lemma thunk_unfold:
  assumes "a \<noteq> []"
    and "getTransactionsForAddress extra a = Inr answer"
    and "notEmpty_filter answer \<noteq> []"
    and "getTransactionWithEffectsBatch extra (deduplicate (Some (notEmpty_filter answer))) = Inr txEffs"
  shows "getTransactionsByAddress extra (Some a) =
           (case reconcile a (notEmpty_filter answer) txEffs of
              Inl err \<Rightarrow> Inl err
            | Inr resp \<Rightarrow> enrich_all extra resp)"
  using assms by (simp add: getTransactionsByAddress_def Let_def)

lemma thunk_cases:
  assumes "getTransactionsByAddress extra address = Inr entries"
  shows "entries = [] \<or>
         (\<exists>a answer txEffs resp.
            getTransactionsForAddress extra a = Inr answer
          \<and> getTransactionWithEffectsBatch extra (deduplicate (Some (notEmpty_filter answer))) = Inr txEffs
          \<and> reconcile a (notEmpty_filter answer) txEffs = Inr resp
          \<and> enrich_all extra resp = Inr entries)"
proof (cases address)
  case None
  with assms show ?thesis by (simp add: getTransactionsByAddress_def)
next
  case (Some a)
  show ?thesis
  proof (cases "a = []")
    case True
    with assms Some show ?thesis by (simp add: getTransactionsByAddress_def)
  next
    case a: False
    show ?thesis
    proof (cases "getTransactionsForAddress extra a")
      case (Inl err)
      with assms Some a show ?thesis by (simp add: getTransactionsByAddress_def)
    next
      case (Inr answer)
      show ?thesis
      proof (cases "notEmpty_filter answer = []")
        case True
        with assms Some a Inr show ?thesis by (simp add: getTransactionsByAddress_def)
      next
        case ne: False
        show ?thesis
        proof (cases "getTransactionWithEffectsBatch extra (deduplicate (Some (notEmpty_filter answer)))")
          case (Inl err)
          with assms Some a Inr ne show ?thesis
            by (simp add: getTransactionsByAddress_def)
        next
          case eff: (Inr txEffs)
          from assms Some thunk_unfold[OF a Inr ne eff]
          have r: "(case reconcile a (notEmpty_filter answer) txEffs of
              Inl err \<Rightarrow> Inl err
            | Inr resp \<Rightarrow> enrich_all extra resp) = Inr entries" by simp
          then obtain resp where "reconcile a (notEmpty_filter answer) txEffs = Inr resp"
            and "enrich_all extra resp = Inr entries"
            by (cases "reconcile a (notEmpty_filter answer) txEffs") auto
          with Inr eff show ?thesis by blast
        qed
      qed
    qed
  qed
qed

text \<open>The merge and the serialised error do not depend on the answer to the batch request.\<close>

lemma enrich_all_other_batch:
  "enrich_all (extra\<lparr>getTransactionWithEffectsBatch := g\<rparr>) resp = enrich_all extra resp"
proof -
  have "coinSymbol_of (extra\<lparr>getTransactionWithEffectsBatch := g\<rparr>) = coinSymbol_of extra"
    by (intro ext) (simp add: coinSymbol_of_def coinType_of_def split: option.splits)
  then have "enrich (extra\<lparr>getTransactionWithEffectsBatch := g\<rparr>) = enrich extra"
    by (intro ext) (simp add: enrich_def split: option.splits)
  then show ?thesis
    by (simp add: enrich_all_def fetched_objects_def)
qed

lemma serialize_error_other_batch:
  "serialize_error (extra\<lparr>getTransactionWithEffectsBatch := g\<rparr>) err = serialize_error extra err"
  by (simp add: serialize_error_def split: thunk_error.splits)

lemma cycle_fulfilled:
  assumes "getTransactionsByAddress extra address = Inr entries"
  shows "latestTx (cycle extra address state) = entries"
    and "error (cycle extra address state) = None"
    and "\<not> loading (cycle extra address state)"
  using assms by (simp_all add: cycle_def)

subsection \<open>Responses with more than one transaction\<close>

text \<open>
  Claim C7.  Let the node answer the batch request with a list that holds a response
  \<open>e\<close> with more than one transaction, fetched for a digest of the reference list.
  Then \<open>e\<close> is classified as \<open>null\<close> without raising, the other responses are
  reconciled as they are without \<open>e\<close>, and the whole cycle is the cycle of the same node
  answering with the other responses only: the thunk returns or rejects as it does without
  \<open>e\<close>, and the state after the cycle is the same.  So \<open>e\<close> never makes the cycle
  fail.  When the thunk is fulfilled, no entry carries the digest of \<open>e\<close> (unless
  another response has that digest), and the state is loaded with the entries returned
  and no error.  The thunk is fulfilled whenever the other responses reconcile and the
  objects of their entries merge.
\<close>

theorem multi_operation_effect_dropped:
  assumes "a \<noteq> []"
    and "getTransactionsForAddress extra a = Inr answer"
    and "getTransactionWithEffectsBatch extra (deduplicate (Some (notEmpty_filter answer)))
           = Inr (pre @ e # post)"
    and "length (transactions e) > 1"
    and "transactionDigest e \<in> snd ` set (notEmpty_filter answer)"
  shows "classify a (notEmpty_filter answer) e = Inr None
       \<and> reconcile a (notEmpty_filter answer) (pre @ e # post)
           = reconcile a (notEmpty_filter answer) (pre @ post)
       \<and> getTransactionsByAddress extra (Some a) =
           (case reconcile a (notEmpty_filter answer) (pre @ post) of
              Inl err \<Rightarrow> Inl err
            | Inr resp \<Rightarrow> enrich_all extra resp)
       \<and> getTransactionsByAddress extra (Some a) =
           getTransactionsByAddress
             (extra\<lparr>getTransactionWithEffectsBatch := \<lambda>ds. Inr (pre @ post)\<rparr>) (Some a)
       \<and> cycle extra (Some a) state =
           cycle (extra\<lparr>getTransactionWithEffectsBatch := \<lambda>ds. Inr (pre @ post)\<rparr>) (Some a) state
       \<and> (\<forall>entries. getTransactionsByAddress extra (Some a) = Inr entries \<longrightarrow>
             (transactionDigest e \<notin> transactionDigest ` set (pre @ post)
                \<longrightarrow> transactionDigest e \<notin> txId ` set entries)
           \<and> latestTx (cycle extra (Some a) state) = entries
           \<and> error (cycle extra (Some a) state) = None
           \<and> \<not> loading (cycle extra (Some a) state))
       \<and> (\<forall>resp entries. reconcile a (notEmpty_filter answer) (pre @ post) = Inr resp
                        \<and> enrich_all extra resp = Inr entries \<longrightarrow>
             getTransactionsByAddress extra (Some a) = Inr entries)"
proof -
  let ?refs = "notEmpty_filter answer"
  let ?extra = "extra\<lparr>getTransactionWithEffectsBatch := \<lambda>ds. Inr (pre @ post)\<rparr>"
  from assms(5) have ne: "?refs \<noteq> []" by auto
  have c: "classify a ?refs e = Inr None"
    using assms(4,5) by (rule classify_multi)
  have r: "reconcile a ?refs (pre @ e # post) = reconcile a ?refs (pre @ post)"
    using assms(4,5) by (rule reconcile_multi)
  have t: "getTransactionsByAddress extra (Some a) =
           (case reconcile a ?refs (pre @ post) of
              Inl err \<Rightarrow> Inl err
            | Inr resp \<Rightarrow> enrich_all extra resp)"
    using thunk_unfold[OF assms(1,2) ne assms(3)] r by simp
  have "getTransactionsByAddress ?extra (Some a) =
           (case reconcile a ?refs (pre @ post) of
              Inl err \<Rightarrow> Inl err
            | Inr resp \<Rightarrow> enrich_all ?extra resp)"
    using assms(2) ne by (intro thunk_unfold[OF assms(1)]) simp_all
  with t have same: "getTransactionsByAddress extra (Some a) = getTransactionsByAddress ?extra (Some a)"
    by (simp add: enrich_all_other_batch split: sum.splits)
  have cyc: "cycle extra (Some a) state = cycle ?extra (Some a) state"
    by (simp add: cycle_def same[symmetric] serialize_error_other_batch split: sum.splits)
  have ful: "(transactionDigest e \<notin> transactionDigest ` set (pre @ post)
                \<longrightarrow> transactionDigest e \<notin> txId ` set entries)
           \<and> latestTx (cycle extra (Some a) state) = entries
           \<and> error (cycle extra (Some a) state) = None
           \<and> \<not> loading (cycle extra (Some a) state)"
    if f: "getTransactionsByAddress extra (Some a) = Inr entries" for entries
  proof -
    from f t obtain resp where rec: "reconcile a ?refs (pre @ post) = Inr resp"
      and en: "enrich_all extra resp = Inr entries"
      by (cases "reconcile a ?refs (pre @ post)") auto
    have "txId ` set entries = set (map txId entries)" by simp
    also have "\<dots> = txId ` set resp" by (simp add: enrich_all_txId[OF en])
    finally have "txId ` set entries \<subseteq> transactionDigest ` set (pre @ post)"
      using reconcile_digests[OF rec] by simp
    then have "transactionDigest e \<notin> transactionDigest ` set (pre @ post)
                \<longrightarrow> transactionDigest e \<notin> txId ` set entries"
      by blast
    with cycle_fulfilled[OF f, of state] show ?thesis by simp
  qed
  have suc: "getTransactionsByAddress extra (Some a) = Inr entries"
    if "reconcile a ?refs (pre @ post) = Inr resp \<and> enrich_all extra resp = Inr entries"
    for resp entries
    using that t by simp
  from c r t same cyc ful suc show ?thesis by blast
qed

subsection \<open>Order and digests of the committed list\<close>

text \<open>
  Claim C6, as the code has it.  Let every sequence number of the node's reference lists belong to one
  transaction, and let the node answer a batch request for pairwise different digests
  with responses of pairwise different digests (the request is the deduplicated list).
  Then the list a fulfilled thunk returns, which the fulfilled action commits
  as \<open>latestTx\<close>, is strictly descending by \<open>seq\<close> and no two of its entries have the
  same \<open>txId\<close>.
\<close>

theorem committed_entries_strictly_descending:
  assumes "\<forall>a answer. getTransactionsForAddress extra a = Inr answer
             \<longrightarrow> sequence_numbers_unique (notEmpty_filter answer)"
    and "\<forall>ds txEffs. getTransactionWithEffectsBatch extra ds = Inr txEffs \<and> distinct ds
             \<longrightarrow> distinct (map transactionDigest txEffs)"
    and "getTransactionsByAddress extra address = Inr entries"
  shows "sorted_wrt (\<lambda>x y. seq x > seq y) entries
       \<and> distinct (map txId entries)
       \<and> latestTx (cycle extra address state) = entries"
proof -
  have commit: "latestTx (cycle extra address state) = entries"
    using assms(3) by (simp add: cycle_def)
  have "sorted_wrt (\<lambda>x y. seq x > seq y) entries \<and> distinct (map txId entries)"
  proof (cases "entries = []")
    case True
    then show ?thesis by simp
  next
    case False
    obtain a answer txEffs resp where
      ans: "getTransactionsForAddress extra a = Inr answer"
      and eff: "getTransactionWithEffectsBatch extra (deduplicate (Some (notEmpty_filter answer))) = Inr txEffs"
      and rec: "reconcile a (notEmpty_filter answer) txEffs = Inr resp"
      and ent: "enrich_all extra resp = Inr entries"
      using thunk_cases[OF assms(3)] False by blast
    from assms(1) ans have u: "sequence_numbers_unique (notEmpty_filter answer)" by blast
    have "distinct (deduplicate (Some (notEmpty_filter answer)))"
      using distinct_firsts[of "map snd (notEmpty_filter answer)"] by (simp add: deduplicate_Some)
    with assms(2) eff have d: "distinct (map transactionDigest txEffs)" by blast
    have "map seq entries = map seq resp" "map txId entries = map txId resp"
      using ent by (simp_all add: enrich_all_seq enrich_all_txId)
    moreover from reconcile_sorted[OF rec u d]
    have "sorted_wrt (\<lambda>x y. seq x > seq y) resp" "distinct (map txId resp)" by simp_all
    ultimately show ?thesis
      using sorted_wrt_map[of "(>)" seq entries] sorted_wrt_map[of "(>)" seq resp] by simp
  qed
  with commit show ?thesis by simp
qed

theorem multi_operation_effect_dropped_witness:
  "length (transactions (example_effect ''d3'' [sui_transfer, object_transfer])) > 1
   \<and> transactionDigest (example_effect ''d3'' [sui_transfer, object_transfer])
        \<in> snd ` set (notEmpty_filter (map Some example_refs))
   \<and> classify ''0xA'' (notEmpty_filter (map Some example_refs))
        (example_effect ''d3'' [sui_transfer, object_transfer]) = Inr None
   \<and> getTransactionsByAddress example_api (Some ''0xA'') = Inr example_entries
   \<and> ''d3'' \<notin> txId ` set example_entries
   \<and> latestTx (cycle example_api (Some ''0xA'') initialState) = example_entries
   \<and> error (cycle example_api (Some ''0xA'') initialState) = None
   \<and> \<not> loading (cycle example_api (Some ''0xA'') initialState)
   \<and> getTransactionsByAddress
         (mixed_api\<lparr>getTransactionWithEffectsBatch :=
                      \<lambda>ds. Inr [publish_effect, example_effect ''d1'' [sui_transfer]]\<rparr>)
         (Some ''0xA'') = Inl (TypeError no_fields)
   \<and> getTransactionsByAddress mixed_api (Some ''0xA'') = Inl (TypeError no_fields)"
proof -
  let ?e = "example_effect ''d3'' [sui_transfer, object_transfer]"
  let ?pre = "[example_effect ''d2'' [object_transfer]]"
  let ?post = "[example_effect ''d1'' [sui_transfer]]"
  let ?answer = "map Some example_refs"
  have h1: "''0xA'' \<noteq> []" by simp
  have h2: "getTransactionsForAddress example_api ''0xA'' = Inr ?answer"
    by (simp add: example_api_def node_def)
  have h3: "getTransactionWithEffectsBatch example_api
              (deduplicate (Some (notEmpty_filter ?answer))) = Inr (?pre @ ?e # ?post)"
    by (simp add: example_api_def node_def)
  have h4: "length (transactions ?e) > 1"
    by (simp add: example_effect_def)
  have h5: "transactionDigest ?e \<in> snd ` set (notEmpty_filter ?answer)"
    by code_simp
  note T = multi_operation_effect_dropped[OF h1 h2 h3 h4 h5, of initialState]
  have r: "reconcile ''0xA'' (notEmpty_filter ?answer) (?pre @ ?post) = Inr example_resp
           \<and> enrich_all example_api example_resp = Inr example_entries"
    by code_simp
  have f: "getTransactionsByAddress example_api (Some ''0xA'') = Inr example_entries"
    using T[THEN conjunct2, THEN conjunct2, THEN conjunct2, THEN conjunct2, THEN conjunct2,
        THEN conjunct2, rule_format, OF r] .
  note T6 = T[THEN conjunct2, THEN conjunct2, THEN conjunct2, THEN conjunct2, THEN conjunct2,
        THEN conjunct1, rule_format, OF f]
  have d: "transactionDigest ?e \<notin> transactionDigest ` set (?pre @ ?post)"
    by code_simp
  have d3: "transactionDigest ?e = ''d3''"
    by (simp add: example_effect_def)
  from T6[THEN conjunct1, rule_format, OF d] d3
  have n: "''d3'' \<notin> txId ` set example_entries" by simp
  let ?refs = "map Some ((3, ''d3'') # publishing_refs)"
  have m2: "getTransactionsForAddress mixed_api ''0xA'' = Inr ?refs"
    by (simp add: mixed_api_def node_def)
  have m3: "getTransactionWithEffectsBatch mixed_api
              (deduplicate (Some (notEmpty_filter ?refs))) = Inr ([publish_effect] @ ?e # ?post)"
    by (simp add: mixed_api_def node_def)
  have m5: "transactionDigest ?e \<in> snd ` set (notEmpty_filter ?refs)"
    by code_simp
  note M = multi_operation_effect_dropped[OF h1 m2 m3 h4 m5, of initialState]
  have w: "getTransactionsByAddress
         (mixed_api\<lparr>getTransactionWithEffectsBatch :=
                      \<lambda>ds. Inr [publish_effect, example_effect ''d1'' [sui_transfer]]\<rparr>)
         (Some ''0xA'') = Inl (TypeError no_fields)"
    by code_simp
  have "getTransactionsByAddress mixed_api (Some ''0xA'') = Inl (TypeError no_fields)"
    using M[THEN conjunct2, THEN conjunct2, THEN conjunct2, THEN conjunct1] w by simp
  with T[THEN conjunct1] T6[THEN conjunct2] f n h4 h5 w show ?thesis by simp
qed

theorem committed_entries_strictly_descending_witness:
  "getTransactionsByAddress example_api (Some ''0xA'') = Inr example_entries
   \<and> map seq example_entries = [2, 1]
   \<and> sorted_wrt (\<lambda>x y. seq x > seq y) example_entries
   \<and> distinct (map txId example_entries)
   \<and> latestTx (cycle example_api (Some ''0xA'') initialState) = example_entries"
proof -
  have u: "sequence_numbers_unique (notEmpty_filter (map Some example_refs))"
    by code_simp
  have h1: "\<forall>a answer. getTransactionsForAddress example_api a = Inr answer
             \<longrightarrow> sequence_numbers_unique (notEmpty_filter answer)"
    using u by (auto simp: example_api_def node_def)
  have d: "distinct (map transactionDigest
             [example_effect ''d2'' [object_transfer],
              example_effect ''d3'' [sui_transfer, object_transfer],
              example_effect ''d1'' [sui_transfer]])"
    by code_simp
  have h2: "\<forall>ds txEffs. getTransactionWithEffectsBatch example_api ds = Inr txEffs \<and> distinct ds
             \<longrightarrow> distinct (map transactionDigest txEffs)"
    using d by (auto simp: example_api_def node_def)
  have h3: "getTransactionsByAddress example_api (Some ''0xA'') = Inr example_entries"
    by code_simp
  have s: "map seq example_entries = [2, 1]"
    by code_simp
  from committed_entries_strictly_descending[OF h1 h2 h3, of initialState] h3 s
  show ?thesis by simp
qed

text \<open>
  The claim as the specification states it, with the condition on the sequence numbers
  alone, fails: the list need not be strictly descending, nor its digests pairwise
  different.  The node \<open>repeating_api\<close> has one reference, so its sequence
  numbers are unique and the request is for the one digest \<open>d1\<close>, and it answers with
  the response of \<open>d1\<close> twice.  The thunk is fulfilled with two entries of sequence
  number 1 and digest \<open>d1\<close>, and they are committed.
\<close>

theorem repeated_response_counterexample:
  "getTransactionsForAddress repeating_api ''0xA'' = Inr [Some (1, ''d1'')]
   \<and> sequence_numbers_unique (notEmpty_filter [Some (1, ''d1'')])
   \<and> deduplicate (Some (notEmpty_filter [Some (1, ''d1'')])) = [''d1'']
   \<and> getTransactionsByAddress repeating_api (Some ''0xA'')
       = Inr [example_entries ! 1, example_entries ! 1]
   \<and> latestTx (cycle repeating_api (Some ''0xA'') initialState)
       = [example_entries ! 1, example_entries ! 1]
   \<and> map seq (latestTx (cycle repeating_api (Some ''0xA'') initialState)) = [1, 1]
   \<and> map txId (latestTx (cycle repeating_api (Some ''0xA'') initialState)) = [''d1'', ''d1'']
   \<and> \<not> sorted_wrt (\<lambda>x y. seq x > seq y)
          (latestTx (cycle repeating_api (Some ''0xA'') initialState))
   \<and> \<not> distinct (map txId (latestTx (cycle repeating_api (Some ''0xA'') initialState)))"
proof -
  have a: "getTransactionsForAddress repeating_api ''0xA'' = Inr [Some (1, ''d1'')]"
    by (simp add: repeating_api_def node_def)
  have u: "sequence_numbers_unique (notEmpty_filter [Some (1, ''d1'')])"
    by code_simp
  have dd: "deduplicate (Some (notEmpty_filter [Some (1, ''d1'')])) = [''d1'']"
    by code_simp
  have t: "getTransactionsByAddress repeating_api (Some ''0xA'')
       = Inr [example_entries ! 1, example_entries ! 1]"
    by code_simp
  then have l: "latestTx (cycle repeating_api (Some ''0xA'') initialState)
       = [example_entries ! 1, example_entries ! 1]"
    by (simp add: cycle_def)
  have s: "seq (example_entries ! 1) = 1" and i: "txId (example_entries ! 1) = ''d1''"
    by (simp_all add: example_entries_def)
  from a u dd t l s i show ?thesis by simp
qed

subsection \<open>An object without fields\<close>

text \<open>
  Claim C8.  On the account of \<open>publishing_api\<close> the two responses reconcile to two
  entries, the publish transaction with the id of the package as \<open>objectId\<close> and the
  transfer of SUI with no \<open>objectId\<close>.  The object batch holds the package, which the
  first entry finds, and the merge raises a \<open>TypeError\<close> on reading its \<open>fields\<close>: it
  returns no list, the thunk rejects, and the cycle ends with the error and an empty
  list, so that both entries are lost, also the one that has no object.
\<close>

theorem package_object_rejects_cycle:
  "reconcile ''0xA'' publishing_refs [publish_effect, example_effect ''d1'' [sui_transfer]]
     = Inr publishing_resp
   \<and> length publishing_resp = 2
   \<and> objectId (publishing_resp ! 0) = Some ''0xpkg''
   \<and> objectId (publishing_resp ! 1) = None
   \<and> fetched_objects publishing_api publishing_resp = Some [package_object]
   \<and> find_object (Some [package_object]) (publishing_resp ! 0) = Some package_object
   \<and> data_fields (data package_object) = None
   \<and> enrich_all publishing_api publishing_resp = Inl (TypeError no_fields)
   \<and> getTransactionsByAddress publishing_api (Some ''0xA'') = Inl (TypeError no_fields)
   \<and> latestTx (cycle publishing_api (Some ''0xA'') initialState) = []
   \<and> error (cycle publishing_api (Some ''0xA'') initialState)
       = Some \<lparr>code = None,
               message = Some ''Cannot read properties of undefined (reading 'description')'',
               name' = Some ''TypeError''\<rparr>
   \<and> \<not> loading (cycle publishing_api (Some ''0xA'') initialState)"
proof -
  have r: "reconcile ''0xA'' publishing_refs [publish_effect, example_effect ''d1'' [sui_transfer]]
     = Inr publishing_resp"
    by code_simp
  have l: "length publishing_resp = 2"
    by (simp add: publishing_resp_def)
  have o: "objectId (publishing_resp ! 0) = Some ''0xpkg''"
    "objectId (publishing_resp ! 1) = None"
    by (simp_all add: publishing_resp_def example_entries_def)
  have f: "fetched_objects publishing_api publishing_resp = Some [package_object]"
    by code_simp
  have m: "find_object (Some [package_object]) (publishing_resp ! 0) = Some package_object"
    by code_simp
  have d: "data_fields (data package_object) = None"
    by (simp add: package_object_def)
  have e: "enrich_all publishing_api publishing_resp = Inl (TypeError no_fields)"
    by code_simp
  have t: "getTransactionsByAddress publishing_api (Some ''0xA'') = Inl (TypeError no_fields)"
    by code_simp
  have g: "TypeError_message publishing_api no_fields
             = ''Cannot read properties of undefined (reading 'description')''"
    by (simp add: publishing_api_def node_def)
  have c: "cycle publishing_api (Some ''0xA'') initialState
           = \<lparr>loading = False,
              error = Some \<lparr>code = None,
                message = Some ''Cannot read properties of undefined (reading 'description')'',
                name' = Some ''TypeError''\<rparr>,
              latestTx = [], recentAddresses = []\<rparr>"
    by (simp add: cycle_def t serialize_error_def g initialState_def)
  from r l o f m d e t show ?thesis by (simp add: c)
qed

end
